theory Spec2Isabelle
  imports Complex_Main
begin

section \<open>JSON values and Python dictionaries\<close>

text \<open>
  Every collection of the application is a JSON file holding a list of objects
  (\<open>app/core/database.py\<close>); the handlers work on the dictionaries that
  \<open>json.load\<close> returns. A JSON value is modelled by the datatype below. A
  dictionary is an association list in insertion order, read through \<open>map_of\<close>;
  the dictionaries of the program have distinct keys.

  The values of Python's \<open>float\<close> are a type of their own, about which nothing
  is assumed. Its equality is that of the logic; the instance below makes terms that
  hold floats evaluable.
\<close>

typedecl pyfloat

instantiation pyfloat :: equal
begin

definition equal_pyfloat :: "pyfloat \<Rightarrow> pyfloat \<Rightarrow> bool" where
  "equal_pyfloat x y \<longleftrightarrow> x = y"

instance
  by standard (simp add: equal_pyfloat_def)

end

datatype json =
    JNull
  | JBool bool
  | JInt int
  | JFloat pyfloat
  | JStr string
  | JList "json list"
  | JObj "(string \<times> json) list"

type_synonym pydict = "(string \<times> json) list"

type_synonym collection = "pydict list"

text \<open>
  The exceptions of \<open>app.core.exceptions\<close> raised by the handlers, with a tag for
  the message where one exception class is raised for several reasons, and the built-in
  exceptions that the dictionary and arithmetic operations of the handlers can raise.
\<close>

datatype bad_request = Product_not_found | Insufficient_stock | Only_pending

datatype conflict = Username_exists | Email_registered

datatype error =
    NotFoundException
  | BadRequestException bad_request
  | ForbiddenException
  | ConflictException conflict
  | KeyError string
  | TypeError
  | AttributeError
  | OverflowError
  | ValidationError

definition bindE :: "error + 'a \<Rightarrow> ('a \<Rightarrow> error + 'b) \<Rightarrow> error + 'b" where
  "bindE m f = (case m of Inl e \<Rightarrow> Inl e | Inr x \<Rightarrow> f x)"

subsection \<open>Dictionary operations\<close>

text \<open>\<open>d.get(k)\<close>: the value, or \<open>None\<close> when the key is missing.\<close>

definition dict_get :: "pydict \<Rightarrow> string \<Rightarrow> json" where
  "dict_get d k = (case map_of d k of None \<Rightarrow> JNull | Some v \<Rightarrow> v)"

text \<open>\<open>d[k]\<close>: the value, or \<open>KeyError\<close> when the key is missing.\<close>

definition dict_index :: "pydict \<Rightarrow> string \<Rightarrow> error + json" where
  "dict_index d k = (case map_of d k of None \<Rightarrow> Inl (KeyError k) | Some v \<Rightarrow> Inr v)"

text \<open>\<open>d[k] = v\<close>: an existing key keeps its place, a new key goes last.\<close>

fun dict_set :: "pydict \<Rightarrow> string \<Rightarrow> json \<Rightarrow> pydict" where
  "dict_set [] k v = [(k, v)]"
| "dict_set ((k', v') # d) k v =
     (if k' = k then (k, v) # d else (k', v') # dict_set d k v)"

text \<open>\<open>d.update(u)\<close>: assigns the entries of \<open>u\<close> in order.\<close>

fun dict_update :: "pydict \<Rightarrow> pydict \<Rightarrow> pydict" where
  "dict_update d [] = d"
| "dict_update d ((k, v) # u) = dict_update (dict_set d k v) u"

text \<open>The truth value of \<open>Optional[Dict]\<close>: \<open>None\<close> and \<open>{}\<close> are false.\<close>

fun truthy :: "pydict option \<Rightarrow> bool" where
  "truthy None = False"
| "truthy (Some d) = (d \<noteq> [])"

subsection \<open>Python operators on JSON values\<close>

text \<open>\<open>x[k]\<close> for a string key: only a dictionary can be indexed by a string.\<close>

fun py_getitem :: "json \<Rightarrow> string \<Rightarrow> error + json" where
  "py_getitem (JObj d) k = dict_index d k"
| "py_getitem x k = Inl TypeError"

text \<open>
  \<open>for item in x\<close>: a list gives its elements, a string its characters, a
  dictionary its keys; nothing else can be iterated.
\<close>

fun py_iter :: "json \<Rightarrow> error + json list" where
  "py_iter (JList xs) = Inr xs"
| "py_iter (JStr s) = Inr (map (\<lambda>c. JStr [c]) s)"
| "py_iter (JObj d) = Inr (map (\<lambda>kv. JStr (fst kv)) d)"
| "py_iter x = Inl TypeError"

text \<open>
  Python numbers: \<open>int\<close>, \<open>float\<close>, and \<open>bool\<close> counting as 0 or 1.
  The arithmetic of floats is not defined here: the operations that the handlers use
  are taken as they are, as the fields of \<open>float_ops\<close>, and every function that
  computes with floats takes them as its first argument. In mixed arithmetic Python
  converts the \<open>int\<close> operand to a float and raises \<open>OverflowError\<close> when
  it is beyond the range of a float, that is when its rounding to 53 bits reaches
  \<open>2 ^ 1024\<close>; a float is compared with an \<open>int\<close> exactly, without
  conversion.
\<close>

datatype pynum = PInt int | PFloat pyfloat

record float_ops =
  float_of_int :: "int \<Rightarrow> pyfloat"
  float_add :: "pyfloat \<Rightarrow> pyfloat \<Rightarrow> pyfloat"
  float_sub :: "pyfloat \<Rightarrow> pyfloat \<Rightarrow> pyfloat"
  float_mul :: "pyfloat \<Rightarrow> pyfloat \<Rightarrow> pyfloat"
  float_lt_int :: "pyfloat \<Rightarrow> int \<Rightarrow> bool"

definition float_overflow :: "int \<Rightarrow> bool" where
  "float_overflow n \<longleftrightarrow> 2 ^ 1024 - 2 ^ 970 \<le> \<bar>n\<bar>"

definition to_float :: "float_ops \<Rightarrow> int \<Rightarrow> error + pyfloat" where
  "to_float fl n = (if float_overflow n then Inl OverflowError else Inr (float_of_int fl n))"

fun pynum_add :: "float_ops \<Rightarrow> pynum \<Rightarrow> pynum \<Rightarrow> error + pynum" where
  "pynum_add fl (PInt a) (PInt b) = Inr (PInt (a + b))"
| "pynum_add fl (PInt a) (PFloat y) =
     bindE (to_float fl a) (\<lambda>x. Inr (PFloat (float_add fl x y)))"
| "pynum_add fl (PFloat x) (PInt b) =
     bindE (to_float fl b) (\<lambda>y. Inr (PFloat (float_add fl x y)))"
| "pynum_add fl (PFloat x) (PFloat y) = Inr (PFloat (float_add fl x y))"

fun pynum_sub_int :: "float_ops \<Rightarrow> pynum \<Rightarrow> int \<Rightarrow> error + pynum" where
  "pynum_sub_int fl (PInt a) n = Inr (PInt (a - n))"
| "pynum_sub_int fl (PFloat x) n =
     bindE (to_float fl n) (\<lambda>y. Inr (PFloat (float_sub fl x y)))"

fun pynum_lt_int :: "float_ops \<Rightarrow> pynum \<Rightarrow> int \<Rightarrow> bool" where
  "pynum_lt_int fl (PInt a) n = (a < n)"
| "pynum_lt_int fl (PFloat x) n = float_lt_int fl x n"

fun json_of_pynum :: "pynum \<Rightarrow> json" where
  "json_of_pynum (PInt n) = JInt n"
| "json_of_pynum (PFloat r) = JFloat r"

fun as_num :: "json \<Rightarrow> pynum option" where
  "as_num (JInt n) = Some (PInt n)"
| "as_num (JFloat r) = Some (PFloat r)"
| "as_num (JBool b) = Some (PInt (if b then 1 else 0))"
| "as_num x = None"

text \<open>\<open>x < n\<close> and \<open>x - n\<close> for a JSON value \<open>x\<close> and an \<open>int\<close> \<open>n\<close>.\<close>

definition py_lt_int :: "float_ops \<Rightarrow> json \<Rightarrow> int \<Rightarrow> error + bool" where
  "py_lt_int fl x n =
     (case as_num x of None \<Rightarrow> Inl TypeError | Some a \<Rightarrow> Inr (pynum_lt_int fl a n))"

definition py_sub_int :: "float_ops \<Rightarrow> json \<Rightarrow> int \<Rightarrow> error + json" where
  "py_sub_int fl x n =
     (case as_num x of None \<Rightarrow> Inl TypeError
      | Some a \<Rightarrow> bindE (pynum_sub_int fl a n) (\<lambda>r. Inr (json_of_pynum r)))"

text \<open>
  \<open>x + y\<close> for two JSON values: numbers add, strings and lists concatenate,
  every other pair raises \<open>TypeError\<close>.
\<close>

fun py_concat :: "json \<Rightarrow> json \<Rightarrow> error + json" where
  "py_concat (JStr s) (JStr t) = Inr (JStr (s @ t))"
| "py_concat (JList xs) (JList ys) = Inr (JList (xs @ ys))"
| "py_concat x y = Inl TypeError"

definition py_add :: "float_ops \<Rightarrow> json \<Rightarrow> json \<Rightarrow> error + json" where
  "py_add fl x y =
     (case (as_num x, as_num y) of
        (Some a, Some b) \<Rightarrow> bindE (pynum_add fl a b) (\<lambda>r. Inr (json_of_pynum r))
      | _ \<Rightarrow> py_concat x y)"

section \<open>The document store: \<open>JSONDatabase\<close>\<close>

text \<open>
  \<open>app/core/database.py\<close>. A \<open>JSONDatabase\<close> object holds only the path of
  its file; the state is the file's content, a list of dictionaries, which every
  operation reads whole (\<open>get_all\<close>) and every mutating operation writes back
  whole. The operations below take the content and return the new content with the
  Python result. The key of \<open>get_by_id\<close> and \<open>update\<close> is compared by
  \<open>item.get('id') == id\<close>; equality of JSON values here is that of the datatype,
  which is Python's whenever one side is a string or \<open>None\<close>, as all ids of the
  application are. Failures of the file system are not modelled.
\<close>

definition get_all :: "collection \<Rightarrow> collection" where
  "get_all data = data"

fun get_by_field :: "collection \<Rightarrow> string \<Rightarrow> json \<Rightarrow> pydict option" where
  "get_by_field [] field val = None"
| "get_by_field (item # data) field val =
     (if dict_get item field = val then Some item else get_by_field data field val)"

definition get_by_id :: "collection \<Rightarrow> json \<Rightarrow> pydict option" where
  "get_by_id data i = get_by_field (get_all data) ''id'' i"

definition create :: "collection \<Rightarrow> pydict \<Rightarrow> collection \<times> pydict" where
  "create data item = (get_all data @ [item], item)"

text \<open>
  The loop of \<open>update\<close>: the first item with the id is merged, the file is
  written and the item returned; when no item has the id nothing is written and the
  result is \<open>None\<close>.
\<close>

fun update_loop :: "collection \<Rightarrow> json \<Rightarrow> pydict \<Rightarrow> collection \<times> pydict option" where
  "update_loop [] i updates = ([], None)"
| "update_loop (item # data) i updates =
     (if dict_get item ''id'' = i
      then (dict_update item updates # data, Some (dict_update item updates))
      else (case update_loop data i updates of (data', r) \<Rightarrow> (item # data', r)))"

definition update :: "collection \<Rightarrow> json \<Rightarrow> pydict \<Rightarrow> collection \<times> pydict option" where
  "update data i updates = update_loop (get_all data) i updates"

definition delete :: "collection \<Rightarrow> json \<Rightarrow> collection \<times> bool" where
  "delete data i =
     (let new_data = filter (\<lambda>item. dict_get item ''id'' \<noteq> i) (get_all data)
      in if length new_data < length (get_all data) then (new_data, True) else (data, False))"

section \<open>Request and principal models\<close>

text \<open>
  The pydantic models of \<open>app/models\<close> that the handlers receive. FastAPI builds
  them from the request before the handler runs, so a handler sees only the declared
  fields: \<open>OrderCreate\<close> has \<open>items\<close> and nothing else, \<open>UserCreate\<close> has
  no \<open>role\<close> and no \<open>is_active\<close>. A field of \<open>UserUpdate\<close> is
  \<open>None\<close> when the request did not set it (\<open>exclude_unset\<close> drops it) and
  \<open>Some v\<close> when it did, where \<open>v\<close> may itself be \<open>None\<close>.
\<close>

record OrderItem =
  product_id :: string
  product_name :: string
  quantity :: int
  price :: pyfloat

record OrderCreate =
  items :: "OrderItem list"

record UserBase =
  username :: string
  email :: string
  full_name :: "string option"

record UserCreate = UserBase +
  password :: string

record UserInDB = UserBase +
  uid :: string
  hashed_password :: string
  role :: string
  is_active :: bool
  created_at :: string
  updated_at :: "string option"

record UserUpdate =
  email_set :: "string option option"
  full_name_set :: "string option option"
  password_set :: "string option option"

text \<open>The three collections: \<open>users.json\<close>, \<open>products.json\<close>, \<open>orders.json\<close>.\<close>

record world =
  users :: collection
  products :: collection
  orders :: collection

fun json_of_optional :: "string option \<Rightarrow> json" where
  "json_of_optional None = JNull"
| "json_of_optional (Some s) = JStr s"

text \<open>\<open>item.dict()\<close> of an \<open>OrderItem\<close>.\<close>

definition item_dict :: "OrderItem \<Rightarrow> json" where
  "item_dict item =
     JObj [(''product_id'', JStr (product_id item)),
           (''product_name'', JStr (product_name item)),
           (''quantity'', JInt (quantity item)),
           (''price'', JFloat (price item))]"

section \<open>Orders: \<open>app/api/v1/orders.py\<close>\<close>

text \<open>
  Each handler takes the three collections and returns them with its outcome:
  \<open>Inl\<close> an exception, \<open>Inr\<close> the returned value. The collections come back
  also when the handler raises, since what was written before the exception stays
  written. \<open>uuid.uuid4()\<close> and \<open>datetime.utcnow()\<close> are inputs of the handler
  (\<open>new_id\<close>, \<open>now\<close>; one reading of the clock for the whole call).
  \<open>create_order\<close> and \<open>register\<close> build their response from the dictionary
  they have just made of the validated request, and the model returns that
  dictionary. Printing is left out.
\<close>

subsection \<open>\<open>create_order\<close>\<close>

text \<open>
  The body of the first loop: the item's product is read and checked. The message of
  the insufficient-stock exception formats \<open>product['name']\<close>, which raises
  \<open>KeyError\<close> when the product has no name.
\<close>

definition check_item :: "float_ops \<Rightarrow> collection \<Rightarrow> OrderItem \<Rightarrow> error + unit" where
  "check_item fl db item =
     (let product = get_by_id db (JStr (product_id item)) in
      if \<not> truthy product then Inl (BadRequestException Product_not_found)
      else
        bindE (dict_index (the product) ''stock'') (\<lambda>stock.
        bindE (py_lt_int fl stock (quantity item)) (\<lambda>too_few.
          if too_few
          then bindE (dict_index (the product) ''name'') (\<lambda>name.
                 Inl (BadRequestException Insufficient_stock))
          else Inr ())))"

text \<open>
  \<open>item.quantity * item.price\<close>, an \<open>int\<close> times a float, and
  \<open>total_amount += item.quantity * item.price\<close>.
\<close>

definition subtotal :: "float_ops \<Rightarrow> OrderItem \<Rightarrow> error + pyfloat" where
  "subtotal fl item =
     bindE (to_float fl (quantity item)) (\<lambda>q. Inr (float_mul fl q (price item)))"

definition add_subtotal :: "float_ops \<Rightarrow> pynum \<Rightarrow> OrderItem \<Rightarrow> error + pynum" where
  "add_subtotal fl total_amount item =
     bindE (subtotal fl item) (\<lambda>x. pynum_add fl total_amount (PFloat x))"

text \<open>The first loop: the items are checked in order, the total accumulated from 0.\<close>

fun validate_items ::
  "float_ops \<Rightarrow> collection \<Rightarrow> OrderItem list \<Rightarrow> pynum \<Rightarrow> error + pynum" where
  "validate_items fl db [] total_amount = Inr total_amount"
| "validate_items fl db (item # rest) total_amount =
     (case check_item fl db item of
        Inl e \<Rightarrow> Inl e
      | Inr u \<Rightarrow>
          (case add_subtotal fl total_amount item of
             Inl e \<Rightarrow> Inl e
           | Inr total_amount' \<Rightarrow> validate_items fl db rest total_amount'))"

text \<open>
  The body of the second loop: the product is read again and the new stock computed
  (\<open>reduced_stock\<close>), then \<open>update\<close> writes it (\<open>write_stock\<close>).
\<close>

definition reduced_stock :: "float_ops \<Rightarrow> collection \<Rightarrow> OrderItem \<Rightarrow> error + json" where
  "reduced_stock fl db item =
     (case get_by_id db (JStr (product_id item)) of
        None \<Rightarrow> Inl TypeError
      | Some product \<Rightarrow>
          bindE (dict_index product ''stock'') (\<lambda>stock. py_sub_int fl stock (quantity item)))"

definition write_stock :: "collection \<Rightarrow> OrderItem \<Rightarrow> json \<Rightarrow> string \<Rightarrow> collection" where
  "write_stock db item v now =
     fst (update db (JStr (product_id item)) [(''stock'', v), (''updated_at'', JStr now)])"

text \<open>
  The second loop. An exception in the middle leaves the earlier writes in place.
\<close>

fun decrement_stock ::
  "float_ops \<Rightarrow> collection \<Rightarrow> OrderItem list \<Rightarrow> string \<Rightarrow> collection \<times> (error + unit)" where
  "decrement_stock fl db [] now = (db, Inr ())"
| "decrement_stock fl db (item # rest) now =
     (case reduced_stock fl db item of
        Inl e \<Rightarrow> (db, Inl e)
      | Inr v \<Rightarrow> decrement_stock fl (write_stock db item v now) rest now)"

definition order_data :: "OrderCreate \<Rightarrow> UserInDB \<Rightarrow> pynum \<Rightarrow> string \<Rightarrow> string \<Rightarrow> pydict" where
  "order_data order current_user total_amount new_id now =
     [(''id'', JStr new_id),
      (''user_id'', JStr (uid current_user)),
      (''items'', JList (map item_dict (items order))),
      (''status'', JStr ''pending''),
      (''total_amount'', json_of_pynum total_amount),
      (''created_at'', JStr now),
      (''updated_at'', JNull)]"

definition create_order ::
  "float_ops \<Rightarrow> world \<Rightarrow> OrderCreate \<Rightarrow> UserInDB \<Rightarrow> string \<Rightarrow> string
     \<Rightarrow> world \<times> (error + pydict)" where
  "create_order fl w order current_user new_id now =
     (case validate_items fl (products w) (items order) (PInt 0) of
        Inl e \<Rightarrow> (w, Inl e)
      | Inr total_amount \<Rightarrow>
          (case decrement_stock fl (products w) (items order) now of
             (db_products, Inl e) \<Rightarrow> (w\<lparr>products := db_products\<rparr>, Inl e)
           | (db_products, Inr u) \<Rightarrow>
               (w\<lparr>products := db_products,
                  orders := fst (create (orders w)
                                   (order_data order current_user total_amount new_id now))\<rparr>,
                Inr (order_data order current_user total_amount new_id now))))"

subsection \<open>\<open>cancel_order\<close>\<close>

text \<open>The permission check: a principal who is not an admin must own a pending order.\<close>

definition cancel_permission :: "pydict \<Rightarrow> UserInDB \<Rightarrow> error + unit" where
  "cancel_permission order current_user =
     (if role current_user \<noteq> ''admin''
      then bindE (dict_index order ''user_id'') (\<lambda>owner.
             if owner \<noteq> JStr (uid current_user) then Inl ForbiddenException
             else bindE (dict_index order ''status'') (\<lambda>status.
                    if status \<noteq> JStr ''pending''
                    then Inl (BadRequestException Only_pending)
                    else Inr ()))
      else Inr ())"

text \<open>
  The loop that gives the stock back: an item whose product is gone is skipped.
\<close>

fun restore_stock ::
  "float_ops \<Rightarrow> collection \<Rightarrow> json list \<Rightarrow> string \<Rightarrow> collection \<times> (error + unit)" where
  "restore_stock fl db [] now = (db, Inr ())"
| "restore_stock fl db (item # rest) now =
     (case py_getitem item ''product_id'' of
        Inl e \<Rightarrow> (db, Inl e)
      | Inr pid \<Rightarrow>
          (let product = get_by_id db pid in
           if truthy product
           then (case bindE (dict_index (the product) ''stock'') (\<lambda>stock.
                      bindE (py_getitem item ''quantity'') (\<lambda>qty. py_add fl stock qty)) of
                   Inl e \<Rightarrow> (db, Inl e)
                 | Inr new_stock \<Rightarrow>
                     restore_stock fl
                       (fst (update db pid [(''stock'', new_stock), (''updated_at'', JStr now)]))
                       rest now)
           else restore_stock fl db rest now))"

definition cancel_order ::
  "float_ops \<Rightarrow> world \<Rightarrow> string \<Rightarrow> UserInDB \<Rightarrow> string \<Rightarrow> world \<times> (error + unit)" where
  "cancel_order fl w order_id current_user now =
     (let order = get_by_id (orders w) (JStr order_id) in
      if \<not> truthy order then (w, Inl NotFoundException)
      else
        (case cancel_permission (the order) current_user of
           Inl e \<Rightarrow> (w, Inl e)
         | Inr u \<Rightarrow>
             (case bindE (dict_index (the order) ''items'') py_iter of
                Inl e \<Rightarrow> (w, Inl e)
              | Inr order_items \<Rightarrow>
                  (case restore_stock fl (products w) order_items now of
                     (db_products, Inl e) \<Rightarrow> (w\<lparr>products := db_products\<rparr>, Inl e)
                   | (db_products, Inr u') \<Rightarrow>
                       (w\<lparr>products := db_products,
                          orders := fst (update (orders w) (JStr order_id)
                                           [(''status'', JStr ''cancelled''),
                                            (''updated_at'', JStr now)])\<rparr>,
                        Inr ())))))"

section \<open>Registration: \<open>app/api/v1/auth.py\<close>\<close>

text \<open>
  \<open>get_password_hash\<close> (SHA-256 in \<open>app/core/security.py\<close>) is a parameter:
  nothing below depends on what it computes.
\<close>

definition user_data :: "UserCreate \<Rightarrow> (string \<Rightarrow> string) \<Rightarrow> string \<Rightarrow> string \<Rightarrow> pydict" where
  "user_data user get_password_hash new_id now =
     [(''id'', JStr new_id),
      (''username'', JStr (username user)),
      (''email'', JStr (email user)),
      (''full_name'', json_of_optional (full_name user)),
      (''hashed_password'', JStr (get_password_hash (password user))),
      (''role'', JStr ''user''),
      (''is_active'', JBool True),
      (''created_at'', JStr now),
      (''updated_at'', JNull)]"

definition register ::
  "world \<Rightarrow> UserCreate \<Rightarrow> (string \<Rightarrow> string) \<Rightarrow> string \<Rightarrow> string \<Rightarrow> world \<times> (error + pydict)" where
  "register w user get_password_hash new_id now =
     (if truthy (get_by_field (users w) ''username'' (JStr (username user)))
      then (w, Inl (ConflictException Username_exists))
      else if truthy (get_by_field (users w) ''email'' (JStr (email user)))
      then (w, Inl (ConflictException Email_registered))
      else (w\<lparr>users := fst (create (users w) (user_data user get_password_hash new_id now))\<rparr>,
            Inr (user_data user get_password_hash new_id now)))"

section \<open>Users: \<open>app/api/v1/users.py\<close>\<close>

text \<open>\<open>user_update.dict(exclude_unset=True)\<close>: the fields the request set, in order.\<close>

definition set_field :: "string \<Rightarrow> string option option \<Rightarrow> pydict" where
  "set_field k f = (case f of None \<Rightarrow> [] | Some v \<Rightarrow> [(k, json_of_optional v)])"

definition update_dict :: "UserUpdate \<Rightarrow> pydict" where
  "update_dict user_update =
     set_field ''email'' (email_set user_update) @
     set_field ''full_name'' (full_name_set user_update) @
     set_field ''password'' (password_set user_update)"

text \<open>\<open>d.pop(k)\<close> for a key that is present: the dictionary without it.\<close>

definition dict_pop :: "pydict \<Rightarrow> string \<Rightarrow> pydict" where
  "dict_pop d k = filter (\<lambda>kv. fst kv \<noteq> k) d"

text \<open>
  A password in the update is replaced by its hash; \<open>get_password_hash(None)\<close>
  raises \<open>AttributeError\<close> (\<open>None\<close> has no \<open>encode\<close>).
\<close>

definition hash_password :: "pydict \<Rightarrow> (string \<Rightarrow> string) \<Rightarrow> error + pydict" where
  "hash_password update_data get_password_hash =
     (case map_of update_data ''password'' of
        None \<Rightarrow> Inr update_data
      | Some (JStr pw) \<Rightarrow>
          Inr (dict_set (dict_pop update_data ''password'') ''hashed_password''
                 (JStr (get_password_hash pw)))
      | Some other \<Rightarrow> Inl AttributeError)"

text \<open>
  The handler ends with \<open>UserResponse(**updated_user)\<close>, after the write. The
  validation that pydantic does there is the parameter \<open>user_response\<close>: it
  gives the response, or \<open>None\<close> when pydantic raises \<open>ValidationError\<close>.
\<close>

definition update_user ::
  "world \<Rightarrow> string \<Rightarrow> UserUpdate \<Rightarrow> UserInDB \<Rightarrow> (string \<Rightarrow> string)
     \<Rightarrow> (pydict \<Rightarrow> 'r option) \<Rightarrow> string \<Rightarrow> world \<times> (error + 'r)" where
  "update_user w user_id user_update current_user get_password_hash user_response now =
     (if \<not> truthy (get_by_id (users w) (JStr user_id)) then (w, Inl NotFoundException)
      else if role current_user \<noteq> ''admin'' \<and> uid current_user \<noteq> user_id
      then (w, Inl ForbiddenException)
      else
        (case hash_password (update_dict user_update) get_password_hash of
           Inl e \<Rightarrow> (w, Inl e)
         | Inr update_data \<Rightarrow>
             (case update (users w) (JStr user_id)
                     (dict_set update_data ''updated_at'' (JStr now)) of
                (db, None) \<Rightarrow> (w\<lparr>users := db\<rparr>, Inl TypeError)
              | (db, Some updated_user) \<Rightarrow>
                  (case user_response updated_user of
                     None \<Rightarrow> (w\<lparr>users := db\<rparr>, Inl ValidationError)
                   | Some response \<Rightarrow> (w\<lparr>users := db\<rparr>, Inr response)))))"

section \<open>Calls of \<open>register\<close> in one event loop\<close>

text \<open>
  \<open>register\<close> awaits the store three times, in \<open>get_by_field\<close> for the
  username, in \<open>get_by_field\<close> for the email and in \<open>create\<close>, and each
  suspends once on entry (\<open>await asyncio.sleep(0)\<close> in \<open>get_all\<close>, before
  the file is read). A call is thus four segments; \<open>reg_task\<close> says in which of
  the three operations it is suspended.
\<close>

datatype reg_task =
    Reg_start
  | Checking_username
  | Checking_email
  | Reg_inserting
  | Reg_done "error + pydict"

record reg_call =
  reg_user :: UserCreate
  reg_hash :: "string \<Rightarrow> string"
  reg_id :: string
  reg_time :: string

fun resume_register :: "reg_call \<Rightarrow> world \<Rightarrow> reg_task \<Rightarrow> world \<times> reg_task" where
  "resume_register c w Reg_start = (w, Checking_username)"
| "resume_register c w Checking_username =
     (if truthy (get_by_field (users w) ''username'' (JStr (username (reg_user c))))
      then (w, Reg_done (Inl (ConflictException Username_exists)))
      else (w, Checking_email))"
| "resume_register c w Checking_email =
     (if truthy (get_by_field (users w) ''email'' (JStr (email (reg_user c))))
      then (w, Reg_done (Inl (ConflictException Email_registered)))
      else (w, Reg_inserting))"
| "resume_register c w Reg_inserting =
     (w\<lparr>users := fst (create (users w)
                (user_data (reg_user c) (reg_hash c) (reg_id c) (reg_time c)))\<rparr>,
      Reg_done (Inr (user_data (reg_user c) (reg_hash c) (reg_id c) (reg_time c))))"
| "resume_register c w (Reg_done r) = (w, Reg_done r)"

fun run_registrations ::
  "nat list \<Rightarrow> world \<times> (reg_call \<times> reg_task) list \<Rightarrow> world \<times> (reg_call \<times> reg_task) list" where
  "run_registrations [] s = s"
| "run_registrations (k # sched) (w, ts) =
     (if k < length ts
      then (case resume_register (fst (ts ! k)) w (snd (ts ! k)) of
              (w', t') \<Rightarrow> run_registrations sched (w', ts[k := (fst (ts ! k), t')]))
      else run_registrations sched (w, ts))"

fun registered :: "reg_task \<Rightarrow> bool" where
  "registered (Reg_done (Inr u)) = True"
| "registered t = False"

definition usernames :: "collection \<Rightarrow> json list" where
  "usernames db = map (\<lambda>u. dict_get u ''username'') db"

definition emails :: "collection \<Rightarrow> json list" where
  "emails db = map (\<lambda>u. dict_get u ''email'') db"

section \<open>Calls of \<open>create_order\<close> in one event loop\<close>

text \<open>
  The handlers are coroutines of one asyncio event loop. A coroutine runs alone until
  it suspends, and the only suspension of the code is \<open>await asyncio.sleep(0)\<close>
  in \<open>get_all\<close>, before the file is read: so each \<open>get_by_id\<close>,
  \<open>update\<close> and \<open>create\<close> suspends once, on entry, and no lock is held
  across it. A call of \<open>create_order\<close> is therefore a sequence of atomic
  segments, each from the resumption inside one store operation to the suspension
  inside the next. \<open>task\<close> says where a call is suspended and what its local
  variables hold: the item being processed, the items still to come, the total, and
  the \<open>new_stock\<close> computed for a pending \<open>update\<close>.
\<close>

datatype task =
    Start
  | Validating OrderItem "OrderItem list" pynum
  | Reading OrderItem "OrderItem list" pynum
  | Writing OrderItem json "OrderItem list" pynum
  | Inserting pynum
  | Done "error + pydict"

record call =
  call_order :: OrderCreate
  call_user :: UserInDB
  call_id :: string
  call_time :: string

text \<open>
  Arriving at the head of the second and of the first loop: the call suspends in the
  \<open>get_by_id\<close> of the next item, or, with no item left, goes on to what follows
  the loop.
\<close>

fun second_loop :: "OrderItem list \<Rightarrow> pynum \<Rightarrow> task" where
  "second_loop [] total_amount = Inserting total_amount"
| "second_loop (item # rest) total_amount = Reading item rest total_amount"

fun first_loop :: "OrderCreate \<Rightarrow> OrderItem list \<Rightarrow> pynum \<Rightarrow> task" where
  "first_loop order [] total_amount = second_loop (items order) total_amount"
| "first_loop order (item # rest) total_amount = Validating item rest total_amount"

text \<open>
  One segment: the call is resumed, reads or writes the file it was about to, and
  runs to its next suspension or to its end. The segments use the loop bodies of
  \<open>create_order\<close> above.
\<close>

fun resume :: "float_ops \<Rightarrow> call \<Rightarrow> world \<Rightarrow> task \<Rightarrow> world \<times> task" where
  "resume fl c w Start = (w, first_loop (call_order c) (items (call_order c)) (PInt 0))"
| "resume fl c w (Validating item rest total_amount) =
     (case check_item fl (products w) item of
        Inl e \<Rightarrow> (w, Done (Inl e))
      | Inr u \<Rightarrow>
          (case add_subtotal fl total_amount item of
             Inl e \<Rightarrow> (w, Done (Inl e))
           | Inr total_amount' \<Rightarrow> (w, first_loop (call_order c) rest total_amount')))"
| "resume fl c w (Reading item rest total_amount) =
     (case reduced_stock fl (products w) item of
        Inl e \<Rightarrow> (w, Done (Inl e))
      | Inr v \<Rightarrow> (w, Writing item v rest total_amount))"
| "resume fl c w (Writing item v rest total_amount) =
     (w\<lparr>products := write_stock (products w) item v (call_time c)\<rparr>,
      second_loop rest total_amount)"
| "resume fl c w (Inserting total_amount) =
     (w\<lparr>orders := fst (create (orders w)
                (order_data (call_order c) (call_user c) total_amount (call_id c) (call_time c)))\<rparr>,
      Done (Inr (order_data (call_order c) (call_user c) total_amount (call_id c) (call_time c))))"
| "resume fl c w (Done r) = (w, Done r)"

text \<open>
  The event loop: a schedule names, segment by segment, the call that is resumed.
\<close>

fun run_schedule ::
  "float_ops \<Rightarrow> nat list \<Rightarrow> world \<times> (call \<times> task) list \<Rightarrow> world \<times> (call \<times> task) list" where
  "run_schedule fl [] s = s"
| "run_schedule fl (k # sched) (w, ts) =
     (if k < length ts
      then (case resume fl (fst (ts ! k)) w (snd (ts ! k)) of
              (w', t') \<Rightarrow> run_schedule fl sched (w', ts[k := (fst (ts ! k), t')]))
      else run_schedule fl sched (w, ts))"

fun succeeded :: "task \<Rightarrow> bool" where
  "succeeded (Done (Inr od)) = True"
| "succeeded t = False"

text \<open>Calls one after another: each runs from its start to its end before the next.\<close>

fun create_orders ::
  "float_ops \<Rightarrow> world \<Rightarrow> call list \<Rightarrow> world \<times> (error + pydict) list" where
  "create_orders fl w [] = (w, [])"
| "create_orders fl w (c # cs) =
     (case create_order fl w (call_order c) (call_user c) (call_id c) (call_time c) of
        (w', r) \<Rightarrow> (case create_orders fl w' cs of (w'', rs) \<Rightarrow> (w'', r # rs)))"

section \<open>Reading the stock\<close>

text \<open>
  What the handlers see of a product: the \<open>stock\<close> field of the record that
  \<open>get_by_id\<close> returns for its id, and that field when it is an \<open>int\<close>, as
  the product schema (\<open>ProductBase.stock: int\<close>) has it; its \<open>name\<close> field
  likewise. \<open>qty_sum\<close> is the number of units of a product that an item list
  asks for.
\<close>

definition stock_of :: "collection \<Rightarrow> string \<Rightarrow> json option" where
  "stock_of db pid =
     (case get_by_id db (JStr pid) of None \<Rightarrow> None | Some product \<Rightarrow> map_of product ''stock'')"

definition stock_int :: "collection \<Rightarrow> string \<Rightarrow> int option" where
  "stock_int db pid = (case stock_of db pid of Some (JInt s) \<Rightarrow> Some s | _ \<Rightarrow> None)"

definition name_of :: "collection \<Rightarrow> string \<Rightarrow> json option" where
  "name_of db pid =
     (case get_by_id db (JStr pid) of None \<Rightarrow> None | Some product \<Rightarrow> map_of product ''name'')"

definition qty_sum :: "OrderItem list \<Rightarrow> string \<Rightarrow> int" where
  "qty_sum its pid = sum_list (map quantity (filter (\<lambda>it. product_id it = pid) its))"

section \<open>Sample data\<close>

text \<open>
  Records of the shape that the application writes (\<open>app/main.py\<close> seeds an admin
  and three products of this form), used to run the handlers on concrete inputs. The
  price \<open>p\<close> of the product and the total \<open>t\<close> of a stored order are floats
  and stay parameters.
\<close>

definition laptop :: "pyfloat \<Rightarrow> pydict" where
  "laptop p =
     [(''id'', JStr ''p-1''), (''name'', JStr ''Laptop Dell XPS 13''),
      (''description'', JStr ''High-performance ultrabook''), (''price'', JFloat p),
      (''stock'', JInt 10), (''category'', JStr ''Electronics''),
      (''created_at'', JStr ''2024-01-01T00:00:00'')]"

definition john_record :: pydict where
  "john_record =
     [(''id'', JStr ''u-1''), (''username'', JStr ''john_doe''),
      (''email'', JStr ''john@example.com''), (''full_name'', JNull),
      (''hashed_password'', JStr ''x''), (''role'', JStr ''user''),
      (''is_active'', JBool True), (''created_at'', JStr ''2024-01-01T00:00:00''),
      (''updated_at'', JNull)]"

definition jane_record :: pydict where
  "jane_record =
     [(''id'', JStr ''u-2''), (''username'', JStr ''jane_doe''),
      (''email'', JStr ''jane@example.com''), (''full_name'', JNull),
      (''hashed_password'', JStr ''y''), (''role'', JStr ''user''),
      (''is_active'', JBool True), (''created_at'', JStr ''2024-01-02T00:00:00''),
      (''updated_at'', JNull)]"

definition john :: UserInDB where
  "john = \<lparr>username = ''john_doe'', email = ''john@example.com'', full_name = None,
            uid = ''u-1'', hashed_password = ''x'', role = ''user'', is_active = True,
            created_at = ''2024-01-01T00:00:00'', updated_at = None\<rparr>"

definition jane :: UserInDB where
  "jane = \<lparr>username = ''jane_doe'', email = ''jane@example.com'', full_name = None,
            uid = ''u-2'', hashed_password = ''y'', role = ''user'', is_active = True,
            created_at = ''2024-01-02T00:00:00'', updated_at = None\<rparr>"

definition admin :: UserInDB where
  "admin = \<lparr>username = ''admin'', email = ''admin@example.com'',
             full_name = Some ''System Administrator'', uid = ''u-0'',
             hashed_password = ''z'', role = ''admin'', is_active = True,
             created_at = ''2024-01-01T00:00:00'', updated_at = None\<rparr>"

definition shop :: "pyfloat \<Rightarrow> world" where
  "shop p = \<lparr>users = [john_record, jane_record], products = [laptop p], orders = []\<rparr>"

definition john_again :: UserCreate where
  "john_again = \<lparr>username = ''john_doe'', email = ''other@example.com'', full_name = None,
                  password = ''secret1''\<rparr>"

definition newcomer :: UserCreate where
  "newcomer = \<lparr>username = ''mallory'', email = ''mallory@example.com'',
                full_name = Some ''Mallory'', password = ''secret1''\<rparr>"

definition two_laptops :: "pyfloat \<Rightarrow> OrderCreate" where
  "two_laptops p =
     \<lparr>items = [\<lparr>product_id = ''p-1'', product_name = ''Laptop Dell XPS 13'',
                 quantity = 2, price = p\<rparr>]\<rparr>"

definition eleven_laptops :: "pyfloat \<Rightarrow> OrderCreate" where
  "eleven_laptops p =
     \<lparr>items = [\<lparr>product_id = ''p-1'', product_name = ''Laptop Dell XPS 13'',
                 quantity = 11, price = p\<rparr>]\<rparr>"

definition pending_order :: "pyfloat \<Rightarrow> pyfloat \<Rightarrow> pydict" where
  "pending_order p t =
     [(''id'', JStr ''o-1''), (''user_id'', JStr ''u-1''),
      (''items'', JList (map item_dict (items (two_laptops p)))),
      (''status'', JStr ''pending''), (''total_amount'', JFloat t),
      (''created_at'', JStr ''2024-03-01T00:00:00''), (''updated_at'', JNull)]"

definition processing_order :: "pyfloat \<Rightarrow> pyfloat \<Rightarrow> pydict" where
  "processing_order p t =
     [(''id'', JStr ''o-2''), (''user_id'', JStr ''u-1''),
      (''items'', JList (map item_dict (items (two_laptops p)))),
      (''status'', JStr ''processing''), (''total_amount'', JFloat t),
      (''created_at'', JStr ''2024-02-01T00:00:00''),
      (''updated_at'', JStr ''2024-02-02T00:00:00'')]"

definition cancelled_order :: "pyfloat \<Rightarrow> pyfloat \<Rightarrow> pydict" where
  "cancelled_order p t =
     [(''id'', JStr ''o-3''), (''user_id'', JStr ''u-2''),
      (''items'', JList (map item_dict (items (two_laptops p)))),
      (''status'', JStr ''cancelled''), (''total_amount'', JFloat t),
      (''created_at'', JStr ''2024-01-05T00:00:00''),
      (''updated_at'', JStr ''2024-01-06T00:00:00'')]"

definition order_book :: "pyfloat \<Rightarrow> pyfloat \<Rightarrow> world" where
  "order_book p t =
     \<lparr>users = [john_record, jane_record], products = [laptop p],
      orders = [pending_order p t, processing_order p t, cancelled_order p t]\<rparr>"

definition janes_email :: UserUpdate where
  "janes_email =
     \<lparr>email_set = Some (Some ''jane@example.com''), full_name_set = None,
      password_set = None\<rparr>"

definition one_laptop :: "pyfloat \<Rightarrow> OrderCreate" where
  "one_laptop p =
     \<lparr>items = [\<lparr>product_id = ''p-1'', product_name = ''Laptop Dell XPS 13'',
                 quantity = 1, price = p\<rparr>]\<rparr>"

definition buyer :: "pyfloat \<Rightarrow> nat \<Rightarrow> call" where
  "buyer p k =
     \<lparr>call_order = one_laptop p, call_user = john,
      call_id = ''o-'' @ replicate k CHR ''i'', call_time = ''2024-05-01T00:00:00''\<rparr>"

definition five_left :: "pyfloat \<Rightarrow> world" where
  "five_left p =
     \<lparr>users = [john_record, jane_record],
      products = [dict_set (laptop p) ''stock'' (JInt 5)], orders = []\<rparr>"

definition ten_buyers :: "pyfloat \<Rightarrow> call list" where
  "ten_buyers p = map (buyer p) [0..<10]"

definition round_robin :: "nat list" where
  "round_robin = concat (replicate 5 [0..<10])"

definition ten_tasks :: "pyfloat \<Rightarrow> (call \<times> task) list" where
  "ten_tasks p = map (\<lambda>c. (c, Start)) (ten_buyers p)"

definition members :: world where
  "members = \<lparr>users = [john_record, jane_record], products = [], orders = []\<rparr>"

definition mallory :: "string \<Rightarrow> reg_call" where
  "mallory new_id =
     \<lparr>reg_user = newcomer, reg_hash = id, reg_id = new_id,
      reg_time = ''2024-02-01T00:00:00''\<rparr>"

definition two_mallories :: "(reg_call \<times> reg_task) list" where
  "two_mallories = [(mallory ''u-3'', Reg_start), (mallory ''u-4'', Reg_start)]"

definition in_turn :: "nat list" where
  "in_turn = [0, 1, 0, 1, 0, 1, 0, 1]"

definition null_password :: UserUpdate where
  "null_password =
     \<lparr>email_set = Some (Some ''jane@example.com''), full_name_set = None,
      password_set = Some None\<rparr>"

definition vast :: int where
  "vast = 2 ^ 1024"

definition vast_stock :: "pyfloat \<Rightarrow> world" where
  "vast_stock p =
     \<lparr>users = [john_record, jane_record],
      products = [dict_set (laptop p) ''stock'' (JInt vast)], orders = []\<rparr>"

definition vast_order :: "pyfloat \<Rightarrow> OrderCreate" where
  "vast_order p =
     \<lparr>items = [\<lparr>product_id = ''p-1'', product_name = ''Laptop Dell XPS 13'',
                 quantity = vast, price = p\<rparr>]\<rparr>"

section \<open>Properties of the dictionary and store operations\<close>

lemma bindE_simps [simp]: "bindE (Inl e) f = Inl e" "bindE (Inr x) f = f x"
  by (simp_all add: bindE_def)

lemma map_of_dict_set: "map_of (dict_set d k v) = (map_of d)(k \<mapsto> v)"
  by (induction d k v rule: dict_set.induct) auto

lemma map_of_dict_update: "map_of (dict_update d u) = map_of d ++ map_of (rev u)"
proof (induction d u rule: dict_update.induct)
  case (1 d)
  then show ?case by simp
next
  case (2 d k v u)
  have "map_of (dict_update (dict_set d k v) u) = (map_of d)(k \<mapsto> v) ++ map_of (rev u)"
    by (simp only: "2.IH" map_of_dict_set)
  also have "\<dots> = map_of d ++ (map_of (rev u @ [(k, v)]))"
    by (auto simp: fun_eq_iff map_add_def split: option.splits)
  finally show ?case by simp
qed

lemma dict_get_dict_update:
  "dict_get (dict_update d u) k = (case map_of (rev u) k of None \<Rightarrow> dict_get d k | Some v \<Rightarrow> v)"
  by (simp add: dict_get_def map_of_dict_update map_add_def split: option.splits)

lemma get_by_field_None_iff:
  "get_by_field data f v = None \<longleftrightarrow> (\<forall>item \<in> set data. dict_get item f \<noteq> v)"
  by (induction data) auto

lemma get_by_field_Some_D:
  "get_by_field data f v = Some item \<Longrightarrow> item \<in> set data \<and> dict_get item f = v"
  by (induction data) (auto split: if_splits)

lemma update_loop_absent:
  "get_by_field data ''id'' i = None \<Longrightarrow> update_loop data i u = (data, None)"
  by (induction data) (auto split: if_splits)

lemma update_loop_present:
  "get_by_field data ''id'' i = Some item \<Longrightarrow>
   update_loop data i u =
     (takeWhile (\<lambda>x. dict_get x ''id'' \<noteq> i) data @ dict_update item u
        # tl (dropWhile (\<lambda>x. dict_get x ''id'' \<noteq> i) data),
      Some (dict_update item u))"
  by (induction data) (auto split: if_splits prod.splits)

lemma get_by_field_update_loop_same:
  assumes "map_of (rev u) ''id'' = None"
  shows "get_by_field (fst (update_loop data i u)) ''id'' i
           = map_option (\<lambda>item. dict_update item u) (get_by_field data ''id'' i)"
  using assms by (induction data) (auto simp: dict_get_dict_update split: prod.splits)

lemma get_by_field_update_loop_other:
  assumes "map_of (rev u) ''id'' = None" "j \<noteq> i"
  shows "get_by_field (fst (update_loop data i u)) ''id'' j = get_by_field data ''id'' j"
  using assms by (induction data) (auto simp: dict_get_dict_update split: prod.splits)

section \<open>Properties of the loop over the stock\<close>


lemma get_by_id_JStr_nonempty: "get_by_id db (JStr i) = Some p \<Longrightarrow> p \<noteq> []"
  using get_by_field_Some_D [of db "''id''" "JStr i" p]
  by (auto simp: get_by_id_def get_all_def dict_get_def)

lemma get_by_id_update_same:
  "map_of (rev u) ''id'' = None \<Longrightarrow>
   get_by_id (fst (update db i u)) i = map_option (\<lambda>item. dict_update item u) (get_by_id db i)"
  by (simp add: get_by_id_def update_def get_all_def get_by_field_update_loop_same)

lemma get_by_id_update_other:
  "map_of (rev u) ''id'' = None \<Longrightarrow> j \<noteq> i \<Longrightarrow>
   get_by_id (fst (update db i u)) j = get_by_id db j"
  by (simp add: get_by_id_def update_def get_all_def get_by_field_update_loop_other)

lemma stock_of_update:
  "stock_of (fst (update db (JStr pid) [(''stock'', v), (''updated_at'', JStr now)])) pid' =
     (if pid' = pid \<and> get_by_id db (JStr pid) \<noteq> None then Some v else stock_of db pid')"
proof (cases "pid' = pid")
  case True
  then show ?thesis
    by (auto simp: stock_of_def get_by_id_update_same map_of_dict_set split: option.splits)
next
  case False
  then show ?thesis
    by (simp add: stock_of_def get_by_id_update_other)
qed

lemma present_update:
  "map_of (rev u) ''id'' = None \<Longrightarrow>
   get_by_id (fst (update db i u)) j = None \<longleftrightarrow> get_by_id db j = None"
  by (cases "j = i") (simp_all add: get_by_id_update_same get_by_id_update_other)

lemma stock_int_update:
  "stock_int (fst (update db (JStr pid) [(''stock'', JInt n), (''updated_at'', JStr now)])) pid' =
     (if pid' = pid \<and> get_by_id db (JStr pid) \<noteq> None then Some n else stock_int db pid')"
  by (auto simp: stock_int_def stock_of_update)

lemma stock_int_SomeD:
  "stock_int db pid = Some s \<Longrightarrow>
     \<exists>p. get_by_id db (JStr pid) = Some p \<and> p \<noteq> [] \<and> dict_index p ''stock'' = Inr (JInt s)"
  by (auto simp: stock_int_def stock_of_def dict_index_def dest: get_by_id_JStr_nonempty
      split: option.splits json.splits)

lemma stock_int_absent: "get_by_id db (JStr pid) = None \<Longrightarrow> stock_int db pid = None"
  by (simp add: stock_int_def stock_of_def)

lemma qty_sum_Cons:
  "qty_sum (it # its) pid = (if product_id it = pid then quantity it else 0) + qty_sum its pid"
  by (simp add: qty_sum_def)

lemma item_dict_fields:
  "py_getitem (item_dict it) ''product_id'' = Inr (JStr (product_id it))"
  "py_getitem (item_dict it) ''quantity'' = Inr (JInt (quantity it))"
  by (simp_all add: item_dict_def dict_index_def)

lemma py_int_arith:
  "py_add fl (JInt a) (JInt b) = Inr (JInt (a + b))"
  "py_sub_int fl (JInt a) b = Inr (JInt (a - b))"
  "py_lt_int fl (JInt a) b = Inr (a < b)"
  by (simp_all add: py_add_def py_sub_int_def py_lt_int_def)

lemma restore_stock_step_present:
  assumes "stock_int db (product_id it) = Some s"
  shows "restore_stock fl db (item_dict it # rest) now =
           restore_stock fl (fst (update db (JStr (product_id it))
              [(''stock'', JInt (s + quantity it)), (''updated_at'', JStr now)])) rest now"
proof -
  from stock_int_SomeD [OF assms] obtain p where
    p: "get_by_id db (JStr (product_id it)) = Some p" "p \<noteq> []"
       "dict_index p ''stock'' = Inr (JInt s)" by blast
  show ?thesis
    by (simp add: item_dict_fields p py_int_arith)
qed

lemma restore_stock_step_absent:
  assumes "get_by_id db (JStr (product_id it)) = None"
  shows "restore_stock fl db (item_dict it # rest) now = restore_stock fl db rest now"
  by (simp add: item_dict_fields assms)

lemma restore_stock_items:
  assumes "\<forall>it \<in> set its. get_by_id db (JStr (product_id it)) = None
                          \<or> stock_int db (product_id it) \<noteq> None"
  shows "\<exists>db'. restore_stock fl db (map item_dict its) now = (db', Inr ())
           \<and> (\<forall>pid. stock_int db' pid = map_option (\<lambda>s. s + qty_sum its pid) (stock_int db pid))
           \<and> (\<forall>pid. get_by_id db' (JStr pid) = None \<longleftrightarrow> get_by_id db (JStr pid) = None)"
  using assms
proof (induction its arbitrary: db)
  case Nil
  then show ?case by (simp add: qty_sum_def option.map_ident)
next
  case (Cons it its)
  show ?case
  proof (cases "get_by_id db (JStr (product_id it)) = None")
    case True
    from Cons.prems have "\<forall>it \<in> set its. get_by_id db (JStr (product_id it)) = None
                          \<or> stock_int db (product_id it) \<noteq> None" by simp
    from Cons.IH [OF this] obtain db' where
      r: "restore_stock fl db (map item_dict its) now = (db', Inr ())"
      and s: "\<forall>pid. stock_int db' pid = map_option (\<lambda>s. s + qty_sum its pid) (stock_int db pid)"
      and g: "\<forall>pid. get_by_id db' (JStr pid) = None \<longleftrightarrow> get_by_id db (JStr pid) = None"
      by blast
    have "\<forall>pid. stock_int db' pid = map_option (\<lambda>s. s + qty_sum (it # its) pid) (stock_int db pid)"
      using s True by (auto simp: qty_sum_Cons stock_int_absent)
    moreover have "restore_stock fl db (map item_dict (it # its)) now = (db', Inr ())"
      using r by (simp only: list.map restore_stock_step_absent [OF True])
    ultimately show ?thesis using g by blast
  next
    case False
    with Cons.prems obtain s0 where s0: "stock_int db (product_id it) = Some s0" by auto
    let ?db1 = "fst (update db (JStr (product_id it))
              [(''stock'', JInt (s0 + quantity it)), (''updated_at'', JStr now)])"
    have pres: "\<And>j. get_by_id ?db1 j = None \<longleftrightarrow> get_by_id db j = None"
      by (rule present_update) simp
    have "\<forall>it' \<in> set its. get_by_id ?db1 (JStr (product_id it')) = None
                          \<or> stock_int ?db1 (product_id it') \<noteq> None"
      using Cons.prems by (auto simp: pres stock_int_update)
    from Cons.IH [OF this] obtain db' where
      r: "restore_stock fl ?db1 (map item_dict its) now = (db', Inr ())"
      and s: "\<forall>pid. stock_int db' pid = map_option (\<lambda>s. s + qty_sum its pid) (stock_int ?db1 pid)"
      and g: "\<forall>pid. get_by_id db' (JStr pid) = None \<longleftrightarrow> get_by_id ?db1 (JStr pid) = None"
      by blast
    have "\<forall>pid. stock_int db' pid = map_option (\<lambda>s. s + qty_sum (it # its) pid) (stock_int db pid)"
      using s s0 False by (auto simp: qty_sum_Cons stock_int_update)
    moreover have "restore_stock fl db (map item_dict (it # its)) now = (db', Inr ())"
      using r by (simp only: list.map restore_stock_step_present [OF s0])
    ultimately show ?thesis using g pres by simp
  qed
qed


lemma as_num_json_of_pynum [simp]: "as_num (json_of_pynum n) = Some n"
  by (cases n) simp_all

lemma stock_of_SomeD:
  "stock_of db pid = Some v \<Longrightarrow>
     \<exists>p. get_by_id db (JStr pid) = Some p \<and> p \<noteq> [] \<and> dict_index p ''stock'' = Inr v"
  by (auto simp: stock_of_def dict_index_def dest: get_by_id_JStr_nonempty split: option.splits)

lemma decrement_stock_step:
  assumes "stock_of db (product_id it) = Some v" "as_num v = Some n"
    and "pynum_sub_int fl n (quantity it) = Inr r"
  shows "decrement_stock fl db (it # rest) now =
           decrement_stock fl (fst (update db (JStr (product_id it))
              [(''stock'', json_of_pynum r), (''updated_at'', JStr now)])) rest now"
proof -
  from stock_of_SomeD [OF assms(1)] obtain p where
    p: "get_by_id db (JStr (product_id it)) = Some p"
       "dict_index p ''stock'' = Inr v" by blast
  show ?thesis
    by (simp add: reduced_stock_def write_stock_def p py_sub_int_def assms(2,3))
qed

lemma pynum_sub_int_fits:
  "\<not> float_overflow q \<Longrightarrow> \<exists>r. pynum_sub_int fl n q = Inr r"
  by (cases n) (simp_all add: to_float_def)

lemma decrement_stock_succeeds:
  assumes "\<forall>it \<in> set its. (\<exists>v n. stock_of db (product_id it) = Some v \<and> as_num v = Some n)
                          \<and> \<not> float_overflow (quantity it)"
  shows "snd (decrement_stock fl db its now) = Inr ()"
  using assms
proof (induction its arbitrary: db)
  case Nil
  then show ?case by simp
next
  case (Cons it its)
  then obtain v n where v: "stock_of db (product_id it) = Some v" "as_num v = Some n"
    and fits: "\<not> float_overflow (quantity it)"
    by auto
  from pynum_sub_int_fits [OF fits] obtain r where
    r: "pynum_sub_int fl n (quantity it) = Inr r" by blast
  let ?db1 = "fst (update db (JStr (product_id it))
              [(''stock'', json_of_pynum r), (''updated_at'', JStr now)])"
  have "\<forall>it' \<in> set its. (\<exists>v n. stock_of ?db1 (product_id it') = Some v \<and> as_num v = Some n)
                          \<and> \<not> float_overflow (quantity it')"
    using Cons.prems by (auto simp: stock_of_update)
  from Cons.IH [OF this] show ?case
    by (simp only: decrement_stock_step [OF v r])
qed

lemma decrement_stock_items:
  assumes "\<forall>it \<in> set its. stock_int db (product_id it) \<noteq> None"
  shows "\<exists>db'. decrement_stock fl db its now = (db', Inr ())
           \<and> (\<forall>pid. stock_int db' pid = map_option (\<lambda>s. s - qty_sum its pid) (stock_int db pid))
           \<and> (\<forall>pid. get_by_id db' (JStr pid) = None \<longleftrightarrow> get_by_id db (JStr pid) = None)"
  using assms
proof (induction its arbitrary: db)
  case Nil
  then show ?case by (simp add: qty_sum_def option.map_ident)
next
  case (Cons it its)
  then obtain s0 where s0: "stock_int db (product_id it) = Some s0" by auto
  then have v: "stock_of db (product_id it) = Some (JInt s0)" "as_num (JInt s0) = Some (PInt s0)"
    by (auto simp: stock_int_def split: option.splits json.splits)
  have present: "get_by_id db (JStr (product_id it)) \<noteq> None"
    using s0 stock_int_absent by fastforce
  let ?db1 = "fst (update db (JStr (product_id it))
              [(''stock'', JInt (s0 - quantity it)), (''updated_at'', JStr now)])"
  have pres: "\<And>j. get_by_id ?db1 j = None \<longleftrightarrow> get_by_id db j = None"
    by (rule present_update) simp
  have "\<forall>it' \<in> set its. stock_int ?db1 (product_id it') \<noteq> None"
    using Cons.prems by (auto simp: stock_int_update)
  from Cons.IH [OF this] obtain db' where
    r: "decrement_stock fl ?db1 its now = (db', Inr ())"
    and s: "\<forall>pid. stock_int db' pid = map_option (\<lambda>s. s - qty_sum its pid) (stock_int ?db1 pid)"
    and g: "\<forall>pid. get_by_id db' (JStr pid) = None \<longleftrightarrow> get_by_id ?db1 (JStr pid) = None"
    by blast
  have "\<forall>pid. stock_int db' pid = map_option (\<lambda>s. s - qty_sum (it # its) pid) (stock_int db pid)"
    using s s0 present by (auto simp: qty_sum_Cons stock_int_update)
  moreover have "decrement_stock fl db (it # its) now = (db', Inr ())"
    using r decrement_stock_step [OF v, of fl "PInt (s0 - quantity it)" its now] by simp
  ultimately show ?case using g pres by simp
qed

lemma float_overflow_small: "\<bar>n\<bar> \<le> 1000000 \<Longrightarrow> \<not> float_overflow n"
  by (simp add: float_overflow_def)

lemma to_float_fits: "\<not> float_overflow n \<Longrightarrow> to_float fl n = Inr (float_of_int fl n)"
  by (simp add: to_float_def)

text \<open>
  The float that a total stands for when the next product is added to it, and the
  sum of the products of an item list as the first loop accumulates it.
\<close>

lemma add_subtotal_Inr:
  "add_subtotal fl t item = Inr t' \<longleftrightarrow>
     \<not> float_overflow (quantity item)
     \<and> (case t of
          PInt a \<Rightarrow> \<not> float_overflow a
             \<and> t' = PFloat (float_add fl (float_of_int fl a)
                          (float_mul fl (float_of_int fl (quantity item)) (price item)))
        | PFloat x \<Rightarrow>
             t' = PFloat (float_add fl x
                          (float_mul fl (float_of_int fl (quantity item)) (price item))))"
  by (cases t) (auto simp: add_subtotal_def subtotal_def to_float_def)

lemma add_subtotal_Inl:
  "add_subtotal fl t item = Inl e \<Longrightarrow> e = OverflowError"
  by (cases t) (auto simp: add_subtotal_def subtotal_def to_float_def split: if_splits)

lemma validate_items_step:
  "validate_items fl db (item # rest) t =
     (case stock_of db (product_id item) of
        None \<Rightarrow> (if get_by_id db (JStr (product_id item)) = None
                 then Inl (BadRequestException Product_not_found) else Inl (KeyError ''stock''))
      | Some v \<Rightarrow>
          (case as_num v of
             None \<Rightarrow> Inl TypeError
           | Some n \<Rightarrow>
               if pynum_lt_int fl n (quantity item)
               then (case get_by_id db (JStr (product_id item)) of
                       None \<Rightarrow> Inl TypeError
                     | Some p \<Rightarrow> (case map_of p ''name'' of None \<Rightarrow> Inl (KeyError ''name'')
                          | Some x \<Rightarrow> Inl (BadRequestException Insufficient_stock)))
               else (case add_subtotal fl t item of
                       Inl e \<Rightarrow> Inl e
                     | Inr t' \<Rightarrow> validate_items fl db rest t')))"
proof (cases "get_by_id db (JStr (product_id item))")
  case None
  then show ?thesis by (simp add: check_item_def stock_of_def)
next
  case (Some p)
  then have "p \<noteq> []" by (rule get_by_id_JStr_nonempty)
  with Some show ?thesis
    by (simp add: check_item_def stock_of_def dict_index_def py_lt_int_def Let_def
        split: option.splits)
qed

lemma validate_items_ok:
  "validate_items fl db its (PInt 0) = Inr t' \<Longrightarrow>
     (\<forall>it \<in> set its. (\<exists>v n. stock_of db (product_id it) = Some v \<and> as_num v = Some n
                          \<and> \<not> pynum_lt_int fl n (quantity it))
                        \<and> \<not> float_overflow (quantity it))
     \<and> t' = (if its = [] then PInt 0
             else PFloat (foldl (\<lambda>t it. float_add fl t
                                   (float_mul fl (float_of_int fl (quantity it)) (price it)))
                           (float_of_int fl 0) its))"
proof -
  let ?f = "\<lambda>t it. float_add fl t (float_mul fl (float_of_int fl (quantity it)) (price it))"
  have checks: "\<forall>it \<in> set its. (\<exists>v n. stock_of db (product_id it) = Some v \<and> as_num v = Some n
                          \<and> \<not> pynum_lt_int fl n (quantity it))
                        \<and> \<not> float_overflow (quantity it)"
    if "validate_items fl db its t = Inr t'" for its t t'
    using that
  proof (induction its arbitrary: t)
    case Nil
    then show ?case by simp
  next
    case (Cons it its)
    from Cons.prems obtain v n t1 where
      "stock_of db (product_id it) = Some v" "as_num v = Some n"
      "\<not> pynum_lt_int fl n (quantity it)"
      and t1: "add_subtotal fl t it = Inr t1"
      and rest: "validate_items fl db its t1 = Inr t'"
      by (auto simp: validate_items_step simp del: validate_items.simps
          split: option.splits if_splits sum.splits)
    moreover from t1 have "\<not> float_overflow (quantity it)"
      by (simp add: add_subtotal_Inr)
    ultimately show ?case using Cons.IH [OF rest] by auto
  qed
  have floats: "t' = PFloat (foldl ?f x its)"
    if "validate_items fl db its (PFloat x) = Inr t'" for its x t'
    using that
  proof (induction its arbitrary: x)
    case Nil
    then show ?case by simp
  next
    case (Cons it its)
    from Cons.prems obtain t1 where
      t1: "add_subtotal fl (PFloat x) it = Inr t1"
      and rest: "validate_items fl db its t1 = Inr t'"
      by (auto simp: validate_items_step simp del: validate_items.simps
          split: option.splits if_splits sum.splits)
    from t1 have "t1 = PFloat (?f x it)" by (simp add: add_subtotal_Inr)
    with Cons.IH rest show ?case by simp
  qed
  assume run: "validate_items fl db its (PInt 0) = Inr t'"
  have total: "t' = (if its = [] then PInt 0 else PFloat (foldl ?f (float_of_int fl 0) its))"
  proof (cases its)
    case Nil
    with run show ?thesis by simp
  next
    case (Cons it rest)
    from run obtain t1 where
      t1: "add_subtotal fl (PInt 0) it = Inr t1"
      and rest: "validate_items fl db rest t1 = Inr t'"
      by (auto simp: Cons validate_items_step simp del: validate_items.simps
          split: option.splits if_splits sum.splits)
    from t1 have "t1 = PFloat (?f (float_of_int fl 0) it)" by (simp add: add_subtotal_Inr)
    with floats rest show ?thesis by (simp add: Cons)
  qed
  from checks [OF run] total show ?thesis by blast
qed

lemma validate_items_int:
  assumes "\<forall>it \<in> set its. (\<exists>s. stock_int db (product_id it) = Some s \<and> quantity it \<le> s)
                          \<and> \<not> float_overflow (quantity it)"
    and "\<forall>a. t = PInt a \<longrightarrow> \<not> float_overflow a"
  shows "\<exists>t'. validate_items fl db its t = Inr t'"
  using assms
proof (induction its arbitrary: t)
  case Nil
  then show ?case by simp
next
  case (Cons it its)
  then obtain s where s: "stock_int db (product_id it) = Some s" "quantity it \<le> s"
    and fits: "\<not> float_overflow (quantity it)" by auto
  then have v: "stock_of db (product_id it) = Some (JInt s)"
    by (auto simp: stock_int_def split: option.splits json.splits)
  from fits Cons.prems(2) obtain x where t1: "add_subtotal fl t it = Inr (PFloat x)"
    by (cases t) (auto simp: add_subtotal_Inr)
  from Cons.prems have "\<forall>it \<in> set its. (\<exists>s. stock_int db (product_id it) = Some s \<and> quantity it \<le> s)
                          \<and> \<not> float_overflow (quantity it)"
    by simp
  from Cons.IH [OF this, of "PFloat x"] s v t1 show ?case
    by (simp add: validate_items_step del: validate_items.simps)
qed

section \<open>The store's \<open>update\<close>\<close>

text \<open>
  C7, as the specification states it: \<open>update\<close> fails with a not-found error
  when no record has the id. The operation has no \<open>raise\<close>: for an id that no record
  has it returns \<open>None\<close> and leaves the file as it was. Here a collection with one
  product is asked to update another id.
\<close>

theorem update_absent_id_returns_None:
  "update [[(''id'', JStr ''p1''), (''stock'', JInt 5)]] (JStr ''p2'') [(''stock'', JInt 4)]
     = ([[(''id'', JStr ''p1''), (''stock'', JInt 5)]], None)"
  by (simp add: update_def get_all_def dict_get_def)

text \<open>
  C7, amended: for an id that no record has, \<open>update\<close> returns \<open>None\<close> and
  writes nothing; otherwise the first record with the id is replaced, in place, by its
  merge with the given fields, and the merged record is returned. In the merged record
  a field of the update has the update's value (the last one given for it) and every
  other field keeps the record's value.
\<close>

theorem update_merges_or_returns_None:
  "update data i updates =
     (case get_by_id data i of
        None \<Rightarrow> (data, None)
      | Some item \<Rightarrow>
          (takeWhile (\<lambda>x. dict_get x ''id'' \<noteq> i) data @ dict_update item updates
             # tl (dropWhile (\<lambda>x. dict_get x ''id'' \<noteq> i) data),
           Some (dict_update item updates)))
   \<and> map_of (dict_update item' updates) = map_of item' ++ map_of (rev updates)"
  by (simp add: update_def get_by_id_def get_all_def update_loop_absent update_loop_present
        map_of_dict_update split: option.splits)

section \<open>Registration\<close>

lemma truthy_get_by_field_JStr:
  "truthy (get_by_field data f (JStr x)) \<longleftrightarrow> (\<exists>u \<in> set data. dict_get u f = JStr x)"
proof (cases "get_by_field data f (JStr x)")
  case None
  then show ?thesis using get_by_field_None_iff [of data f "JStr x"] by simp
next
  case (Some item)
  then have "item \<in> set data" "dict_get item f = JStr x"
    by (simp_all add: get_by_field_Some_D)
  moreover from this have "item \<noteq> []" by (auto simp: dict_get_def)
  ultimately show ?thesis using Some by auto
qed

lemma register_cases:
  "register w user h new_id now =
     (if \<exists>u \<in> set (users w). dict_get u ''username'' = JStr (username user)
      then (w, Inl (ConflictException Username_exists))
      else if \<exists>u \<in> set (users w). dict_get u ''email'' = JStr (email user)
      then (w, Inl (ConflictException Email_registered))
      else (w\<lparr>users := users w @ [user_data user h new_id now]\<rparr>,
            Inr (user_data user h new_id now)))"
  by (simp add: register_def truthy_get_by_field_JStr create_def get_all_def)

lemma user_data_fields:
  "dict_get (user_data user h new_id now) ''username'' = JStr (username user)"
  "dict_get (user_data user h new_id now) ''email'' = JStr (email user)"
  "map_of (user_data user h new_id now) ''role'' = Some (JStr ''user'')"
  "map_of (user_data user h new_id now) ''is_active'' = Some (JBool True)"
  by (simp_all add: user_data_def dict_get_def)

lemma resume_register_Done:
  "((\<lambda>(w, t). resume_register c w t) ^^ n) (w, Reg_done r) = (w, Reg_done r)"
  by (induction n) simp_all

text \<open>
  A registration that is resumed segment after segment with no other call in between
  does what \<open>register\<close> does as a function of the store.
\<close>

lemma lone_registration_is_register:
  "run_registrations [0, 0, 0, 0] (w, [(c, Reg_start)]) =
     (case register w (reg_user c) (reg_hash c) (reg_id c) (reg_time c) of
        (w', r) \<Rightarrow> (w', [(c, Reg_done r)]))"
  by (simp add: register_def)

text \<open>
  C5, as the specification states it: no two users ever share a username or an email
  as a result of registration. The two checks and the write of \<open>register\<close> are
  three separate awaits with no lock. Here two registrations of the same new user
  start on a collection with pairwise different usernames and emails and are resumed
  in turn: both pass both checks before either writes, both succeed, and the
  collection ends with two records of that username and email.
\<close>

theorem interleaved_registrations_both_succeed:
  "distinct (usernames (users members))
   \<and> distinct (emails (users members))
   \<and> length (filter registered (map snd (snd (run_registrations in_turn (members, two_mallories))))) = 2
   \<and> length (users (fst (run_registrations in_turn (members, two_mallories)))) = 4
   \<and> \<not> distinct (usernames (users (fst (run_registrations in_turn (members, two_mallories)))))
   \<and> \<not> distinct (emails (users (fst (run_registrations in_turn (members, two_mallories)))))"
  by code_simp

text \<open>
  C5, amended: a call of \<open>register\<close> that runs from its first check to its write
  with no other registration in between, and whose username or email is that of a
  stored user, fails with \<open>ConflictException\<close> and leaves the collections as they
  were; and such a call never makes two stored users share a username or an email:
  when the usernames (the emails) of the stored users are pairwise different before
  it, they are so after it.
\<close>

theorem register_duplicate_conflict:
  "((\<exists>u \<in> set (users w). dict_get u ''username'' = JStr (username user)
                          \<or> dict_get u ''email'' = JStr (email user))
      \<longrightarrow> (\<exists>c. register w user h new_id now = (w, Inl (ConflictException c))))
   \<and> (distinct (map (\<lambda>u. dict_get u ''username'') (users w))
      \<longrightarrow> distinct (map (\<lambda>u. dict_get u ''username'')
                     (users (fst (register w user h new_id now)))))
   \<and> (distinct (map (\<lambda>u. dict_get u ''email'') (users w))
      \<longrightarrow> distinct (map (\<lambda>u. dict_get u ''email'')
                     (users (fst (register w user h new_id now)))))"
proof (intro conjI impI)
  assume "\<exists>u \<in> set (users w). dict_get u ''username'' = JStr (username user)
                          \<or> dict_get u ''email'' = JStr (email user)"
  then show "\<exists>c. register w user h new_id now = (w, Inl (ConflictException c))"
    by (auto simp: register_cases)
next
  assume "distinct (map (\<lambda>u. dict_get u ''username'') (users w))"
  then show "distinct (map (\<lambda>u. dict_get u ''username'')
                     (users (fst (register w user h new_id now))))"
    by (auto simp: register_cases user_data_fields)
next
  assume "distinct (map (\<lambda>u. dict_get u ''email'') (users w))"
  then show "distinct (map (\<lambda>u. dict_get u ''email'')
                     (users (fst (register w user h new_id now))))"
    by (auto simp: register_cases user_data_fields)
qed

theorem register_duplicate_conflict_witness:
  "(\<exists>u \<in> set (users members). dict_get u ''username'' = JStr (username john_again)
                           \<or> dict_get u ''email'' = JStr (email john_again))
   \<and> distinct (map (\<lambda>u. dict_get u ''username'') (users members))
   \<and> distinct (map (\<lambda>u. dict_get u ''email'') (users members))
   \<and> (\<exists>c. register members john_again (\<lambda>pw. pw) ''u-3'' ''2024-02-01T00:00:00''
            = (members, Inl (ConflictException c)))
   \<and> distinct (map (\<lambda>u. dict_get u ''username'')
         (users (fst (register members john_again (\<lambda>pw. pw) ''u-3'' ''2024-02-01T00:00:00''))))
   \<and> distinct (map (\<lambda>u. dict_get u ''email'')
         (users (fst (register members john_again (\<lambda>pw. pw) ''u-3'' ''2024-02-01T00:00:00''))))"
proof -
  have dup: "\<exists>u \<in> set (users members). dict_get u ''username'' = JStr (username john_again)
                           \<or> dict_get u ''email'' = JStr (email john_again)"
    by (simp add: members_def john_record_def john_again_def dict_get_def)
  have names: "distinct (map (\<lambda>u. dict_get u ''username'') (users members))"
    by (simp add: members_def john_record_def jane_record_def dict_get_def)
  have mails: "distinct (map (\<lambda>u. dict_get u ''email'') (users members))"
    by (simp add: members_def john_record_def jane_record_def dict_get_def)
  from register_duplicate_conflict
         [of members john_again "\<lambda>pw. pw" "''u-3''" "''2024-02-01T00:00:00''"]
       dup names mails
  show ?thesis by blast
qed

text \<open>
  C8: the record that a successful registration stores is the last of the user
  collection and has role \<open>user\<close> and \<open>is_active\<close> true. The request model
  \<open>UserCreate\<close> has neither field, so no request can choose them.
\<close>

theorem register_role_user_active:
  "register w user h new_id now = (w', Inr r) \<Longrightarrow>
     users w' = users w @ [r]
     \<and> map_of r ''role'' = Some (JStr ''user'')
     \<and> map_of r ''is_active'' = Some (JBool True)"
  by (auto simp: register_cases user_data_fields split: if_splits)

theorem register_role_user_active_witness:
  "register members newcomer (\<lambda>pw. pw) ''u-3'' ''2024-02-01T00:00:00''
     = (members\<lparr>users := users members @ [user_data newcomer (\<lambda>pw. pw) ''u-3'' ''2024-02-01T00:00:00'']\<rparr>,
        Inr (user_data newcomer (\<lambda>pw. pw) ''u-3'' ''2024-02-01T00:00:00''))
   \<and> map_of (user_data newcomer (\<lambda>pw. pw) ''u-3'' ''2024-02-01T00:00:00'') ''role''
         = Some (JStr ''user'')
   \<and> map_of (user_data newcomer (\<lambda>pw. pw) ''u-3'' ''2024-02-01T00:00:00'') ''is_active''
         = Some (JBool True)"
proof -
  have run: "register members newcomer (\<lambda>pw. pw) ''u-3'' ''2024-02-01T00:00:00''
     = (members\<lparr>users := users members @ [user_data newcomer (\<lambda>pw. pw) ''u-3'' ''2024-02-01T00:00:00'']\<rparr>,
        Inr (user_data newcomer (\<lambda>pw. pw) ''u-3'' ''2024-02-01T00:00:00''))"
    by (simp add: register_def members_def newcomer_def john_record_def jane_record_def
          dict_get_def create_def get_all_def)
  from register_role_user_active [OF run] run show ?thesis by simp
qed

section \<open>Creating an order\<close>

lemma create_order_Inr_D:
  assumes "create_order fl w order cu new_id now = (w', Inr od)"
  shows "\<exists>t. validate_items fl (products w) (items order) (PInt 0) = Inr t
           \<and> od = order_data order cu t new_id now
           \<and> w' = w\<lparr>products := fst (decrement_stock fl (products w) (items order) now),
                     orders := orders w @ [od]\<rparr>
           \<and> snd (decrement_stock fl (products w) (items order) now) = Inr ()"
  using assms
  by (auto simp: create_order_def create_def get_all_def split: sum.splits prod.splits)

lemma order_data_fields:
  "map_of (order_data order cu t new_id now) ''id'' = Some (JStr new_id)"
  "map_of (order_data order cu t new_id now) ''user_id'' = Some (JStr (uid cu))"
  "map_of (order_data order cu t new_id now) ''status'' = Some (JStr ''pending'')"
  "map_of (order_data order cu t new_id now) ''total_amount'' = Some (json_of_pynum t)"
  "map_of (order_data order cu t new_id now) ''items'' = Some (JList (map item_dict (items order)))"
  by (simp_all add: order_data_def)

text \<open>
  C3: the order that a successful \<open>create_order\<close> stores is the last of the order
  collection; its \<open>user_id\<close> is the id of the principal (\<open>OrderCreate\<close> has no
  \<open>user_id\<close> field for a request to fill), its status is \<open>pending\<close>, and its
  \<open>total_amount\<close> is the sum of quantity times price over the items, in the
  arithmetic of the program: the float product of each item's quantity and price,
  added in the order of the items to the float of the \<open>int\<close> 0 (and the \<open>int\<close>
  0 itself for an empty list, which the request model excludes). Nothing is said of
  how a float operation rounds.
\<close>

theorem create_order_owner_status_total:
  "create_order fl w order current_user new_id now = (w', Inr od) \<Longrightarrow>
     orders w' = orders w @ [od]
     \<and> map_of od ''user_id'' = Some (JStr (uid current_user))
     \<and> map_of od ''status'' = Some (JStr ''pending'')
     \<and> map_of od ''total_amount'' =
         Some (if items order = [] then JInt 0
               else JFloat (foldl (\<lambda>t it. float_add fl t
                                     (float_mul fl (float_of_int fl (quantity it)) (price it)))
                             (float_of_int fl 0) (items order)))"
proof -
  assume run: "create_order fl w order current_user new_id now = (w', Inr od)"
  from create_order_Inr_D [OF run] obtain t where
    t: "validate_items fl (products w) (items order) (PInt 0) = Inr t"
    and od: "od = order_data order current_user t new_id now"
    and w': "orders w' = orders w @ [od]" by auto
  from validate_items_ok [OF t] have
    "t = (if items order = [] then PInt 0
          else PFloat (foldl (\<lambda>t it. float_add fl t
                                (float_mul fl (float_of_int fl (quantity it)) (price it)))
                        (float_of_int fl 0) (items order)))" by blast
  then have "json_of_pynum t = (if items order = [] then JInt 0
          else JFloat (foldl (\<lambda>t it. float_add fl t
                                (float_mul fl (float_of_int fl (quantity it)) (price it)))
                        (float_of_int fl 0) (items order)))" by simp
  with od w' show ?thesis by (simp add: order_data_fields)
qed

lemma two_laptops_run:
  "snd (create_order fl (shop p) (two_laptops p) john ''o-1'' ''2024-03-01T00:00:00'')
     = Inr (order_data (two_laptops p) john
              (PFloat (float_add fl (float_of_int fl 0) (float_mul fl (float_of_int fl 2) p)))
              ''o-1'' ''2024-03-01T00:00:00'')"
  by (simp add: create_order_def check_item_def add_subtotal_def subtotal_def to_float_fits
        float_overflow_small reduced_stock_def write_stock_def shop_def
        laptop_def two_laptops_def get_by_id_def get_all_def dict_get_def dict_index_def
        py_lt_int_def py_sub_int_def update_def create_def)

theorem create_order_owner_status_total_witness:
  "\<forall>fl p. \<exists>w' od.
     create_order fl (shop p) (two_laptops p) john ''o-1'' ''2024-03-01T00:00:00'' = (w', Inr od)
     \<and> orders w' = orders (shop p) @ [od]
     \<and> map_of od ''user_id'' = Some (JStr ''u-1'')
     \<and> map_of od ''status'' = Some (JStr ''pending'')
     \<and> map_of od ''total_amount'' =
         Some (JFloat (float_add fl (float_of_int fl 0) (float_mul fl (float_of_int fl 2) p)))"
proof (intro allI)
  fix fl p
  from two_laptops_run [of fl p] obtain w' where run:
    "create_order fl (shop p) (two_laptops p) john ''o-1'' ''2024-03-01T00:00:00''
       = (w', Inr (order_data (two_laptops p) john
              (PFloat (float_add fl (float_of_int fl 0) (float_mul fl (float_of_int fl 2) p)))
              ''o-1'' ''2024-03-01T00:00:00''))"
    by (cases "create_order fl (shop p) (two_laptops p) john ''o-1'' ''2024-03-01T00:00:00''")
       simp
  from create_order_owner_status_total [OF run] run
  show "\<exists>w' od.
     create_order fl (shop p) (two_laptops p) john ''o-1'' ''2024-03-01T00:00:00'' = (w', Inr od)
     \<and> orders w' = orders (shop p) @ [od]
     \<and> map_of od ''user_id'' = Some (JStr ''u-1'')
     \<and> map_of od ''status'' = Some (JStr ''pending'')
     \<and> map_of od ''total_amount'' =
         Some (JFloat (float_add fl (float_of_int fl 0) (float_mul fl (float_of_int fl 2) p)))"
    by (simp add: john_def two_laptops_def)
qed

lemma validate_items_schema_error:
  assumes "\<forall>p \<in> set db. (\<exists>s. map_of p ''stock'' = Some (JInt s)) \<and> map_of p ''name'' \<noteq> None"
    and "validate_items fl db its t = Inl e"
  shows "(\<exists>r. e = BadRequestException r) \<or> e = OverflowError"
  using assms(2)
proof (induction its arbitrary: t)
  case Nil
  then show ?case by simp
next
  case (Cons it its)
  show ?case
  proof (cases "get_by_id db (JStr (product_id it))")
    case None
    with Cons.prems show ?thesis
      by (auto simp: validate_items_step stock_of_def simp del: validate_items.simps)
  next
    case (Some p)
    then have "p \<in> set db"
      using get_by_field_Some_D [of db "''id''" "JStr (product_id it)" p]
      by (simp add: get_by_id_def get_all_def)
    with assms(1) obtain s x where "map_of p ''stock'' = Some (JInt s)" "map_of p ''name'' = Some x"
      by fastforce
    with Some Cons.prems Cons.IH show ?thesis
      by (auto simp: validate_items_step stock_of_def simp del: validate_items.simps
          split: if_splits sum.splits dest: add_subtotal_Inl)
  qed
qed

lemma validate_items_overflow:
  assumes "validate_items fl db its (PInt 0) = Inl OverflowError"
  shows "\<exists>it \<in> set its. float_overflow (quantity it)"
proof -
  have "\<exists>it \<in> set its. float_overflow (quantity it)"
    if "validate_items fl db its t = Inl OverflowError"
      and "\<forall>a. t = PInt a \<longrightarrow> \<not> float_overflow a" for t
    using that
  proof (induction its arbitrary: t)
    case Nil
    then show ?case by simp
  next
    case (Cons it its)
    show ?case
    proof (cases "float_overflow (quantity it)")
      case True
      then show ?thesis by simp
    next
      case False
      with Cons.prems(2) obtain x where t1: "add_subtotal fl t it = Inr (PFloat x)"
        by (cases t) (auto simp: add_subtotal_Inr)
      with Cons.prems(1) have "validate_items fl db its (PFloat x) = Inl OverflowError"
        by (auto simp: validate_items_step simp del: validate_items.simps
            split: option.splits if_splits)
      from Cons.IH [OF this] show ?thesis by simp
    qed
  qed
  from this [OF assms] show ?thesis by (simp add: float_overflow_small)
qed

text \<open>
  C2: when \<open>create_order\<close> raises, the three collections are as before the call:
  no stock is changed and no order is stored. It does raise when an item's product is
  absent or has an \<open>int\<close> stock below the item's quantity. When every stored
  product has an \<open>int\<close> stock and a name, as the product schema has it, the
  exception raised is \<open>BadRequestException\<close>, or \<open>OverflowError\<close> for a
  quantity beyond the range of a float.
\<close>

theorem create_order_fails_before_mutation:
  "(create_order fl w order current_user new_id now = (w', Inl e) \<longrightarrow> w' = w)
   \<and> ((\<exists>it \<in> set (items order).
          get_by_id (products w) (JStr (product_id it)) = None
          \<or> (\<exists>s. stock_of (products w) (product_id it) = Some (JInt s) \<and> s < quantity it))
        \<longrightarrow> (\<exists>e'. create_order fl w order current_user new_id now = (w, Inl e')))
   \<and> ((\<forall>p \<in> set (products w). (\<exists>s. map_of p ''stock'' = Some (JInt s)) \<and> map_of p ''name'' \<noteq> None)
        \<longrightarrow> create_order fl w order current_user new_id now = (w', Inl e)
        \<longrightarrow> (\<exists>r. e = BadRequestException r)
            \<or> (e = OverflowError \<and> (\<exists>it \<in> set (items order). float_overflow (quantity it))))"
proof -
  have dec: "snd (decrement_stock fl (products w) (items order) now) = Inr ()"
    if "validate_items fl (products w) (items order) (PInt 0) = Inr t" for t
    using validate_items_ok [OF that] by (intro decrement_stock_succeeds) blast
  have fails: "w' = w \<and> validate_items fl (products w) (items order) (PInt 0) = Inl e"
    if "create_order fl w order current_user new_id now = (w', Inl e)"
    using that dec
    by (auto simp: create_order_def split: sum.splits prod.splits)
  have part1: "create_order fl w order current_user new_id now = (w', Inl e) \<longrightarrow> w' = w"
    using fails by blast
  have part2: "\<exists>e'. create_order fl w order current_user new_id now = (w, Inl e')"
    if bad: "\<exists>it \<in> set (items order).
          get_by_id (products w) (JStr (product_id it)) = None
          \<or> (\<exists>s. stock_of (products w) (product_id it) = Some (JInt s) \<and> s < quantity it)"
  proof (cases "validate_items fl (products w) (items order) (PInt 0)")
    case (Inl e')
    then show ?thesis by (simp add: create_order_def)
  next
    case (Inr t)
    from bad obtain it where it: "it \<in> set (items order)"
      and it_bad: "get_by_id (products w) (JStr (product_id it)) = None
          \<or> (\<exists>s. stock_of (products w) (product_id it) = Some (JInt s) \<and> s < quantity it)"
      by blast
    from validate_items_ok [OF Inr] it obtain v n where
      v: "stock_of (products w) (product_id it) = Some v" "as_num v = Some n"
         "\<not> pynum_lt_int fl n (quantity it)" by blast
    from it_bad v have False
      by (auto simp: stock_of_def)
    then show ?thesis ..
  qed
  have part3: "(\<exists>r. e = BadRequestException r)
            \<or> (e = OverflowError \<and> (\<exists>it \<in> set (items order). float_overflow (quantity it)))"
    if "\<forall>p \<in> set (products w). (\<exists>s. map_of p ''stock'' = Some (JInt s)) \<and> map_of p ''name'' \<noteq> None"
      and "create_order fl w order current_user new_id now = (w', Inl e)"
    using validate_items_schema_error [OF that(1)] fails [OF that(2)] validate_items_overflow
    by blast
  from part1 part2 part3 show ?thesis by blast
qed

theorem create_order_fails_before_mutation_witness:
  "\<forall>fl p.
     create_order fl (shop p) (eleven_laptops p) john ''o-1'' ''2024-03-01T00:00:00''
       = (shop p, Inl (BadRequestException Insufficient_stock))
     \<and> (\<exists>it \<in> set (items (eleven_laptops p)).
          get_by_id (products (shop p)) (JStr (product_id it)) = None
          \<or> (\<exists>s. stock_of (products (shop p)) (product_id it) = Some (JInt s) \<and> s < quantity it))
     \<and> map_of (laptop p) ''stock'' = Some (JInt 10)
     \<and> map_of (laptop p) ''name'' = Some (JStr ''Laptop Dell XPS 13'')
     \<and> (\<exists>e'. create_order fl (shop p) (eleven_laptops p) john ''o-1'' ''2024-03-01T00:00:00''
            = (shop p, Inl e'))"
proof (intro allI)
  fix fl p
  have run: "create_order fl (shop p) (eleven_laptops p) john ''o-1'' ''2024-03-01T00:00:00''
     = (shop p, Inl (BadRequestException Insufficient_stock))"
    by (simp add: create_order_def check_item_def shop_def laptop_def eleven_laptops_def
          get_by_id_def get_all_def dict_get_def dict_index_def py_lt_int_def)
  have short: "\<exists>it \<in> set (items (eleven_laptops p)).
          get_by_id (products (shop p)) (JStr (product_id it)) = None
          \<or> (\<exists>s. stock_of (products (shop p)) (product_id it) = Some (JInt s) \<and> s < quantity it)"
    by (simp add: shop_def laptop_def eleven_laptops_def stock_of_def get_by_id_def
          get_all_def dict_get_def)
  have schema: "\<forall>q \<in> set (products (shop p)).
          (\<exists>s. map_of q ''stock'' = Some (JInt s)) \<and> map_of q ''name'' \<noteq> None"
    by (simp add: shop_def laptop_def)
  have fields: "map_of (laptop p) ''stock'' = Some (JInt 10)"
    "map_of (laptop p) ''name'' = Some (JStr ''Laptop Dell XPS 13'')"
    by (simp_all add: laptop_def)
  from create_order_fails_before_mutation
         [of fl "shop p" "eleven_laptops p" john "''o-1''" "''2024-03-01T00:00:00''" "shop p"
             "BadRequestException Insufficient_stock"]
       run short schema fields
  show "create_order fl (shop p) (eleven_laptops p) john ''o-1'' ''2024-03-01T00:00:00''
       = (shop p, Inl (BadRequestException Insufficient_stock))
     \<and> (\<exists>it \<in> set (items (eleven_laptops p)).
          get_by_id (products (shop p)) (JStr (product_id it)) = None
          \<or> (\<exists>s. stock_of (products (shop p)) (product_id it) = Some (JInt s) \<and> s < quantity it))
     \<and> map_of (laptop p) ''stock'' = Some (JInt 10)
     \<and> map_of (laptop p) ''name'' = Some (JStr ''Laptop Dell XPS 13'')
     \<and> (\<exists>e'. create_order fl (shop p) (eleven_laptops p) john ''o-1'' ''2024-03-01T00:00:00''
            = (shop p, Inl e'))"
    by blast
qed

section \<open>Cancelling an order\<close>


lemma get_by_id_append_fresh:
  "get_by_id data (JStr i) = None \<Longrightarrow> dict_get item ''id'' = JStr i \<Longrightarrow>
   get_by_id (data @ [item]) (JStr i) = Some item"
  unfolding get_by_id_def get_all_def
  by (induction data) (auto split: if_splits)

lemma cancel_permission_iff:
  "cancel_permission order cu = Inr () \<longleftrightarrow>
     role cu = ''admin''
     \<or> (map_of order ''user_id'' = Some (JStr (uid cu))
        \<and> map_of order ''status'' = Some (JStr ''pending''))"
  by (auto simp: cancel_permission_def dict_index_def split: option.splits)

lemma cancel_permission_denied:
  "role cu \<noteq> ''admin'' \<Longrightarrow> map_of order ''user_id'' = Some owner \<Longrightarrow> owner \<noteq> JStr (uid cu) \<Longrightarrow>
     cancel_permission order cu = Inl ForbiddenException"
  "role cu \<noteq> ''admin'' \<Longrightarrow> map_of order ''user_id'' = Some (JStr (uid cu)) \<Longrightarrow>
     map_of order ''status'' = Some st \<Longrightarrow> st \<noteq> JStr ''pending'' \<Longrightarrow>
     cancel_permission order cu = Inl (BadRequestException Only_pending)"
  by (simp_all add: cancel_permission_def dict_index_def)

lemma cancel_order_found:
  assumes "get_by_id (orders w) (JStr oid) = Some order"
  shows "cancel_order fl w oid cu now =
        (case cancel_permission order cu of
           Inl e \<Rightarrow> (w, Inl e)
         | Inr u \<Rightarrow>
             (case bindE (dict_index order ''items'') py_iter of
                Inl e \<Rightarrow> (w, Inl e)
              | Inr order_items \<Rightarrow>
                  (case restore_stock fl (products w) order_items now of
                     (db_products, Inl e) \<Rightarrow> (w\<lparr>products := db_products\<rparr>, Inl e)
                   | (db_products, Inr u') \<Rightarrow>
                       (w\<lparr>products := db_products,
                          orders := fst (update (orders w) (JStr oid)
                                           [(''status'', JStr ''cancelled''),
                                            (''updated_at'', JStr now)])\<rparr>,
                        Inr ()))))"
  using assms get_by_id_JStr_nonempty [OF assms]
  by (simp add: cancel_order_def split: sum.splits)

lemma cancel_order_permitted:
  assumes found: "get_by_id (orders w) (JStr oid) = Some order"
    and perm: "cancel_permission order cu = Inr ()"
    and its: "map_of order ''items'' = Some (JList (map item_dict its))"
    and stocks: "\<forall>it \<in> set its. get_by_id (products w) (JStr (product_id it)) = None
                          \<or> stock_int (products w) (product_id it) \<noteq> None"
  shows "\<exists>w'. cancel_order fl w oid cu now = (w', Inr ())
          \<and> (\<forall>pid. stock_int (products w') pid
                  = map_option (\<lambda>s. s + qty_sum its pid) (stock_int (products w) pid))
          \<and> (\<forall>pid. get_by_id (products w') (JStr pid) = None
                  \<longleftrightarrow> get_by_id (products w) (JStr pid) = None)
          \<and> get_by_id (orders w') (JStr oid)
               = Some (dict_update order [(''status'', JStr ''cancelled''), (''updated_at'', JStr now)])"
proof -
  from restore_stock_items [OF stocks, of fl now] obtain db' where
    r: "restore_stock fl (products w) (map item_dict its) now = (db', Inr ())"
    and s: "\<forall>pid. stock_int db' pid = map_option (\<lambda>s. s + qty_sum its pid) (stock_int (products w) pid)"
    and g: "\<forall>pid. get_by_id db' (JStr pid) = None \<longleftrightarrow> get_by_id (products w) (JStr pid) = None"
    by blast
  have run: "cancel_order fl w oid cu now =
     (w\<lparr>products := db',
        orders := fst (update (orders w) (JStr oid)
                         [(''status'', JStr ''cancelled''), (''updated_at'', JStr now)])\<rparr>, Inr ())"
    by (simp add: cancel_order_found [OF found] perm its dict_index_def r)
  show ?thesis
    using s g found by (simp add: run get_by_id_update_same)
qed

text \<open>
  C4: for an order that exists, a principal who is not an admin cancels it only as its
  owner and only while it is pending: a successful cancellation implies both, another
  owner gives \<open>ForbiddenException\<close>, and the owner of an order that is not
  pending gives \<open>BadRequestException\<close>, with nothing written in either case. An
  admin, like the owner of a pending order, cancels it whatever its status and owner
  are: for an order with the items that \<open>create_order\<close> stores, whose products
  are absent or have an \<open>int\<close> stock, the call succeeds and leaves the order
  cancelled.
\<close>

theorem cancel_order_permission_rule:
  assumes found: "get_by_id (orders w) (JStr oid) = Some order"
  shows
  "(role cu \<noteq> ''admin'' \<longrightarrow> (\<exists>w'. cancel_order fl w oid cu now = (w', Inr ()))
      \<longrightarrow> map_of order ''user_id'' = Some (JStr (uid cu))
          \<and> map_of order ''status'' = Some (JStr ''pending''))
   \<and> (role cu \<noteq> ''admin''
      \<longrightarrow> (\<exists>owner. map_of order ''user_id'' = Some owner \<and> owner \<noteq> JStr (uid cu))
      \<longrightarrow> cancel_order fl w oid cu now = (w, Inl ForbiddenException))
   \<and> (role cu \<noteq> ''admin'' \<longrightarrow> map_of order ''user_id'' = Some (JStr (uid cu))
      \<longrightarrow> (\<exists>st. map_of order ''status'' = Some st \<and> st \<noteq> JStr ''pending'')
      \<longrightarrow> cancel_order fl w oid cu now = (w, Inl (BadRequestException Only_pending)))
   \<and> (role cu = ''admin''
        \<or> (map_of order ''user_id'' = Some (JStr (uid cu))
           \<and> map_of order ''status'' = Some (JStr ''pending''))
      \<longrightarrow> map_of order ''items'' = Some (JList (map item_dict its))
      \<longrightarrow> (\<forall>it \<in> set its. get_by_id (products w) (JStr (product_id it)) = None
                          \<or> stock_int (products w) (product_id it) \<noteq> None)
      \<longrightarrow> (\<exists>w' order'. cancel_order fl w oid cu now = (w', Inr ())
             \<and> get_by_id (orders w') (JStr oid) = Some order'
             \<and> map_of order' ''status'' = Some (JStr ''cancelled'')))"
proof (intro conjI impI)
  assume "role cu \<noteq> ''admin''" "\<exists>w'. cancel_order fl w oid cu now = (w', Inr ())"
  then have "cancel_permission order cu = Inr ()"
    by (auto simp: cancel_order_found [OF found] split: sum.splits)
  with \<open>role cu \<noteq> ''admin''\<close>
  show "map_of order ''user_id'' = Some (JStr (uid cu))"
    and "map_of order ''status'' = Some (JStr ''pending'')"
    by (simp_all add: cancel_permission_iff)
next
  assume "role cu \<noteq> ''admin''"
    "\<exists>owner. map_of order ''user_id'' = Some owner \<and> owner \<noteq> JStr (uid cu)"
  then have "cancel_permission order cu = Inl ForbiddenException"
    by (auto simp: cancel_permission_denied)
  then show "cancel_order fl w oid cu now = (w, Inl ForbiddenException)"
    by (simp add: cancel_order_found [OF found])
next
  assume "role cu \<noteq> ''admin''" "map_of order ''user_id'' = Some (JStr (uid cu))"
    "\<exists>st. map_of order ''status'' = Some st \<and> st \<noteq> JStr ''pending''"
  then have "cancel_permission order cu = Inl (BadRequestException Only_pending)"
    by (auto simp: cancel_permission_denied)
  then show "cancel_order fl w oid cu now = (w, Inl (BadRequestException Only_pending))"
    by (simp add: cancel_order_found [OF found])
next
  assume "role cu = ''admin''
        \<or> (map_of order ''user_id'' = Some (JStr (uid cu))
           \<and> map_of order ''status'' = Some (JStr ''pending''))"
  then have perm: "cancel_permission order cu = Inr ()"
    by (simp add: cancel_permission_iff)
  assume its: "map_of order ''items'' = Some (JList (map item_dict its))"
    and stocks: "\<forall>it \<in> set its. get_by_id (products w) (JStr (product_id it)) = None
                          \<or> stock_int (products w) (product_id it) \<noteq> None"
  from cancel_order_permitted [OF found perm its stocks, of fl now]
  show "\<exists>w' order'. cancel_order fl w oid cu now = (w', Inr ())
             \<and> get_by_id (orders w') (JStr oid) = Some order'
             \<and> map_of order' ''status'' = Some (JStr ''cancelled'')"
    by (auto simp: map_of_dict_set)
qed

theorem cancel_order_permission_rule_witness:
  "\<forall>fl p t.
     cancel_order fl (order_book p t) ''o-1'' jane ''2024-03-02T00:00:00''
       = (order_book p t, Inl ForbiddenException)
     \<and> cancel_order fl (order_book p t) ''o-2'' john ''2024-03-02T00:00:00''
       = (order_book p t, Inl (BadRequestException Only_pending))
     \<and> (\<exists>w' order'. cancel_order fl (order_book p t) ''o-2'' admin ''2024-03-02T00:00:00'' = (w', Inr ())
           \<and> get_by_id (orders w') (JStr ''o-2'') = Some order'
           \<and> map_of order' ''status'' = Some (JStr ''cancelled''))
     \<and> (\<exists>w' order'. cancel_order fl (order_book p t) ''o-1'' john ''2024-03-02T00:00:00'' = (w', Inr ())
           \<and> get_by_id (orders w') (JStr ''o-1'') = Some order'
           \<and> map_of order' ''status'' = Some (JStr ''cancelled''))
     \<and> map_of (pending_order p t) ''user_id'' = Some (JStr (uid john))
     \<and> map_of (pending_order p t) ''status'' = Some (JStr ''pending'')"
proof -
  have "cancel_order fl (order_book p t) ''o-1'' jane ''2024-03-02T00:00:00''
       = (order_book p t, Inl ForbiddenException)
     \<and> cancel_order fl (order_book p t) ''o-2'' john ''2024-03-02T00:00:00''
       = (order_book p t, Inl (BadRequestException Only_pending))
     \<and> (\<exists>w' order'. cancel_order fl (order_book p t) ''o-2'' admin ''2024-03-02T00:00:00'' = (w', Inr ())
           \<and> get_by_id (orders w') (JStr ''o-2'') = Some order'
           \<and> map_of order' ''status'' = Some (JStr ''cancelled''))
     \<and> (\<exists>w' order'. cancel_order fl (order_book p t) ''o-1'' john ''2024-03-02T00:00:00'' = (w', Inr ())
           \<and> get_by_id (orders w') (JStr ''o-1'') = Some order'
           \<and> map_of order' ''status'' = Some (JStr ''cancelled''))
     \<and> map_of (pending_order p t) ''user_id'' = Some (JStr (uid john))
     \<and> map_of (pending_order p t) ''status'' = Some (JStr ''pending'')" for fl p t
  proof -
    have o1: "get_by_id (orders (order_book p t)) (JStr ''o-1'') = Some (pending_order p t)"
      by (simp add: order_book_def pending_order_def get_by_id_def get_all_def dict_get_def)
    have o2: "get_by_id (orders (order_book p t)) (JStr ''o-2'') = Some (processing_order p t)"
      by (simp add: order_book_def pending_order_def processing_order_def get_by_id_def
            get_all_def dict_get_def)
    have roles: "role jane \<noteq> ''admin''" "role john \<noteq> ''admin''" "role admin = ''admin''"
      by (simp_all add: jane_def john_def admin_def)
    have owner1: "map_of (pending_order p t) ''user_id'' = Some (JStr (uid john))"
      and not_jane: "JStr (uid john) \<noteq> JStr (uid jane)"
      and pending1: "map_of (pending_order p t) ''status'' = Some (JStr ''pending'')"
      and items1: "map_of (pending_order p t) ''items'' = Some (JList (map item_dict (items (two_laptops p))))"
      by (simp_all add: pending_order_def john_def jane_def)
    have owner2: "map_of (processing_order p t) ''user_id'' = Some (JStr (uid john))"
      and processing2: "map_of (processing_order p t) ''status'' = Some (JStr ''processing'')"
      and items2: "map_of (processing_order p t) ''items'' = Some (JList (map item_dict (items (two_laptops p))))"
      by (simp_all add: processing_order_def john_def)
    have stocks: "\<forall>it \<in> set (items (two_laptops p)).
            get_by_id (products (order_book p t)) (JStr (product_id it)) = None
            \<or> stock_int (products (order_book p t)) (product_id it) \<noteq> None"
      by (simp add: two_laptops_def order_book_def laptop_def stock_int_def stock_of_def
            get_by_id_def get_all_def dict_get_def)
    note jane1 = cancel_order_permission_rule
                   [OF o1, of jane fl "''2024-03-02T00:00:00''" "items (two_laptops p)"]
    note john2 = cancel_order_permission_rule
                   [OF o2, of john fl "''2024-03-02T00:00:00''" "items (two_laptops p)"]
    note admin2 = cancel_order_permission_rule
                   [OF o2, of admin fl "''2024-03-02T00:00:00''" "items (two_laptops p)"]
    note john1 = cancel_order_permission_rule
                   [OF o1, of john fl "''2024-03-02T00:00:00''" "items (two_laptops p)"]
    have "cancel_order fl (order_book p t) ''o-1'' jane ''2024-03-02T00:00:00''
            = (order_book p t, Inl ForbiddenException)"
      using jane1 roles owner1 not_jane by blast
    moreover have "cancel_order fl (order_book p t) ''o-2'' john ''2024-03-02T00:00:00''
            = (order_book p t, Inl (BadRequestException Only_pending))"
      using john2 roles owner2 processing2 by simp
    moreover have "\<exists>w' order'. cancel_order fl (order_book p t) ''o-2'' admin ''2024-03-02T00:00:00'' = (w', Inr ())
           \<and> get_by_id (orders w') (JStr ''o-2'') = Some order'
           \<and> map_of order' ''status'' = Some (JStr ''cancelled'')"
      using admin2 roles items2 stocks by blast
    moreover have "\<exists>w' order'. cancel_order fl (order_book p t) ''o-1'' john ''2024-03-02T00:00:00'' = (w', Inr ())
           \<and> get_by_id (orders w') (JStr ''o-1'') = Some order'
           \<and> map_of order' ''status'' = Some (JStr ''cancelled'')"
      using john1 owner1 pending1 items1 stocks by blast
    ultimately show ?thesis using owner1 pending1 by blast
  qed
  then show ?thesis by blast
qed

lemma qty_sum_distinct:
  "distinct (map product_id its) \<Longrightarrow> it \<in> set its \<Longrightarrow> qty_sum its (product_id it) = quantity it"
proof (induction its)
  case Nil
  then show ?case by simp
next
  case (Cons a its)
  show ?case
  proof (cases "it = a")
    case True
    from Cons.prems have "product_id a \<notin> product_id ` set its" by simp
    then have "\<forall>x \<in> set its. product_id x \<noteq> product_id a" by (metis imageI)
    then have "filter (\<lambda>x. product_id x = product_id a) its = []"
      by (simp add: filter_empty_conv)
    with True show ?thesis by (simp add: qty_sum_def)
  next
    case False
    with Cons.prems have "it \<in> set its" "product_id a \<noteq> product_id it" by auto
    with Cons show ?thesis by (simp add: qty_sum_Cons)
  qed
qed

text \<open>
  C9: for an order that is already cancelled, with the items that \<open>create_order\<close>
  stores, an admin's \<open>cancel_order\<close> succeeds and adds to every product's stock
  the quantities of the items that name it; a second call succeeds too and adds them
  once more. When the items name different products, what is added to an item's
  product is that item's quantity.
\<close>

theorem admin_cancel_again_adds_stock_again:
  assumes found: "get_by_id (orders w) (JStr oid) = Some order"
    and cancelled: "map_of order ''status'' = Some (JStr ''cancelled'')"
    and its: "map_of order ''items'' = Some (JList (map item_dict its))"
    and adm: "role cu = ''admin''"
    and stocks: "\<forall>it \<in> set its. get_by_id (products w) (JStr (product_id it)) = None
                          \<or> stock_int (products w) (product_id it) \<noteq> None"
  shows "\<exists>w'. cancel_order fl w oid cu now = (w', Inr ())
          \<and> (\<forall>pid. stock_int (products w') pid
                  = map_option (\<lambda>s. s + qty_sum its pid) (stock_int (products w) pid))
          \<and> (\<exists>w''. cancel_order fl w' oid cu now' = (w'', Inr ())
               \<and> (\<forall>pid. stock_int (products w'') pid
                  = map_option (\<lambda>s. s + 2 * qty_sum its pid) (stock_int (products w) pid)))
          \<and> (distinct (map product_id its)
               \<longrightarrow> (\<forall>it \<in> set its. qty_sum its (product_id it) = quantity it))"
proof -
  have perm: "cancel_permission order' cu = Inr ()" for order'
    using adm by (simp add: cancel_permission_iff)
  let ?order' = "dict_update order [(''status'', JStr ''cancelled''), (''updated_at'', JStr now)]"
  from cancel_order_permitted [OF found perm its stocks, of fl now] obtain w' where
    run1: "cancel_order fl w oid cu now = (w', Inr ())"
    and s1: "\<forall>pid. stock_int (products w') pid
                  = map_option (\<lambda>s. s + qty_sum its pid) (stock_int (products w) pid)"
    and g1: "\<forall>pid. get_by_id (products w') (JStr pid) = None
                  \<longleftrightarrow> get_by_id (products w) (JStr pid) = None"
    and found1: "get_by_id (orders w') (JStr oid) = Some ?order'"
    by blast
  have its1: "map_of ?order' ''items'' = Some (JList (map item_dict its))"
    using its by (simp add: map_of_dict_set)
  have stocks1: "\<forall>it \<in> set its. get_by_id (products w') (JStr (product_id it)) = None
                          \<or> stock_int (products w') (product_id it) \<noteq> None"
    using stocks g1 s1 by auto
  from cancel_order_permitted [OF found1 perm its1 stocks1, of fl now'] obtain w'' where
    run2: "cancel_order fl w' oid cu now' = (w'', Inr ())"
    and s2: "\<forall>pid. stock_int (products w'') pid
                  = map_option (\<lambda>s. s + qty_sum its pid) (stock_int (products w') pid)"
    by blast
  have "stock_int (products w'') pid
                  = map_option (\<lambda>s. s + 2 * qty_sum its pid) (stock_int (products w) pid)" for pid
    using s1 s2 by (cases "stock_int (products w) pid") simp_all
  then have "\<forall>pid. stock_int (products w'') pid
                  = map_option (\<lambda>s. s + 2 * qty_sum its pid) (stock_int (products w) pid)" ..
  with run1 s1 run2 show ?thesis
    by (auto simp: qty_sum_distinct)
qed

theorem admin_cancel_again_adds_stock_again_witness:
  "\<forall>fl p t.
     stock_int (products (order_book p t)) ''p-1'' = Some 10
     \<and> (\<exists>w' w''. cancel_order fl (order_book p t) ''o-3'' admin ''2024-03-02T00:00:00'' = (w', Inr ())
           \<and> stock_int (products w') ''p-1'' = Some 12
           \<and> cancel_order fl w' ''o-3'' admin ''2024-03-03T00:00:00'' = (w'', Inr ())
           \<and> stock_int (products w'') ''p-1'' = Some 14)"
proof -
  have "stock_int (products (order_book p t)) ''p-1'' = Some 10
     \<and> (\<exists>w' w''. cancel_order fl (order_book p t) ''o-3'' admin ''2024-03-02T00:00:00'' = (w', Inr ())
           \<and> stock_int (products w') ''p-1'' = Some 12
           \<and> cancel_order fl w' ''o-3'' admin ''2024-03-03T00:00:00'' = (w'', Inr ())
           \<and> stock_int (products w'') ''p-1'' = Some 14)" for fl p t
  proof -
    have o3: "get_by_id (orders (order_book p t)) (JStr ''o-3'') = Some (cancelled_order p t)"
      by (simp add: order_book_def pending_order_def processing_order_def cancelled_order_def
            get_by_id_def get_all_def dict_get_def)
    have cancelled: "map_of (cancelled_order p t) ''status'' = Some (JStr ''cancelled'')"
      and its: "map_of (cancelled_order p t) ''items'' = Some (JList (map item_dict (items (two_laptops p))))"
      by (simp_all add: cancelled_order_def)
    have adm: "role admin = ''admin''" by (simp add: admin_def)
    have stock: "stock_int (products (order_book p t)) ''p-1'' = Some 10"
      by (simp add: order_book_def laptop_def stock_int_def stock_of_def
            get_by_id_def get_all_def dict_get_def)
    then have stocks: "\<forall>it \<in> set (items (two_laptops p)).
            get_by_id (products (order_book p t)) (JStr (product_id it)) = None
            \<or> stock_int (products (order_book p t)) (product_id it) \<noteq> None"
      by (simp add: two_laptops_def)
    have qty: "qty_sum (items (two_laptops p)) ''p-1'' = 2"
      by (simp add: qty_sum_def two_laptops_def)
    from admin_cancel_again_adds_stock_again
           [OF o3 cancelled its adm stocks, of fl "''2024-03-02T00:00:00''" "''2024-03-03T00:00:00''"]
         stock qty
    show ?thesis by fastforce
  qed
  then show ?thesis by blast
qed

lemma create_then_cancel:
  assumes run: "create_order fl w order creator new_id now = (w1, Inr od)"
    and stocks: "\<forall>it \<in> set (items order). stock_int (products w) (product_id it) \<noteq> None"
    and fresh: "get_by_id (orders w) (JStr new_id) = None"
    and who: "role canceller = ''admin'' \<or> uid canceller = uid creator"
  shows "(\<forall>pid. stock_int (products w1) pid
             = map_option (\<lambda>s. s - qty_sum (items order) pid) (stock_int (products w) pid))
       \<and> (\<exists>w2. cancel_order fl w1 new_id canceller now' = (w2, Inr ())
             \<and> (\<forall>pid. stock_int (products w2) pid = stock_int (products w) pid))"
proof -
  from create_order_Inr_D [OF run] obtain t where
    od: "od = order_data order creator t new_id now"
    and w1: "w1 = w\<lparr>products := fst (decrement_stock fl (products w) (items order) now),
                     orders := orders w @ [od]\<rparr>"
    by blast
  from decrement_stock_items [OF stocks, of fl now] obtain db' where
    d: "decrement_stock fl (products w) (items order) now = (db', Inr ())"
    and s: "\<forall>pid. stock_int db' pid
              = map_option (\<lambda>s. s - qty_sum (items order) pid) (stock_int (products w) pid)"
    by blast
  have p1: "products w1 = db'" and o1: "orders w1 = orders w @ [od]"
    using w1 d by simp_all
  have found: "get_by_id (orders w1) (JStr new_id) = Some od"
    unfolding o1 by (rule get_by_id_append_fresh [OF fresh]) (simp add: od order_data_def dict_get_def)
  have perm: "cancel_permission od canceller = Inr ()"
    using who by (auto simp: cancel_permission_iff od order_data_fields)
  have its: "map_of od ''items'' = Some (JList (map item_dict (items order)))"
    by (simp add: od order_data_fields)
  have stocks1: "\<forall>it \<in> set (items order). get_by_id (products w1) (JStr (product_id it)) = None
                          \<or> stock_int (products w1) (product_id it) \<noteq> None"
    using stocks s by (auto simp: p1)
  from cancel_order_permitted [OF found perm its stocks1, of fl now'] obtain w2 where
    run2: "cancel_order fl w1 new_id canceller now' = (w2, Inr ())"
    and s2: "\<forall>pid. stock_int (products w2) pid
                  = map_option (\<lambda>s. s + qty_sum (items order) pid) (stock_int (products w1) pid)"
    by blast
  have "stock_int (products w2) pid = stock_int (products w) pid" for pid
    using s s2 by (cases "stock_int (products w) pid") (simp_all add: p1)
  then have "\<forall>pid. stock_int (products w2) pid = stock_int (products w) pid" ..
  with run2 s show ?thesis by (auto simp: p1)
qed

text \<open>
  C6, as the specification states it: for every stock \<open>s\<close> and every quantity
  \<open>q \<le> s\<close>, creating an order for \<open>q\<close> units and cancelling it returns
  the stock to \<open>s\<close>. \<open>create_order\<close> multiplies the quantity by the price, a
  float, and Python raises \<open>OverflowError\<close> when the quantity is beyond the range
  of a float. Here the stock and the quantity are both \<open>2 ^ 1024\<close>: the stock
  check passes, the multiplication raises, and no order is created.
\<close>

theorem create_order_vast_quantity_raises:
  "\<forall>fl p.
     stock_int (products (vast_stock p)) ''p-1'' = Some vast
     \<and> quantity (hd (items (vast_order p))) = vast
     \<and> create_order fl (vast_stock p) (vast_order p) john ''o-1'' ''2024-03-01T00:00:00''
         = (vast_stock p, Inl OverflowError)"
proof -
  have over: "float_overflow vast"
    by (simp add: float_overflow_def vast_def)
  have "stock_int (products (vast_stock p)) ''p-1'' = Some vast
     \<and> quantity (hd (items (vast_order p))) = vast
     \<and> create_order fl (vast_stock p) (vast_order p) john ''o-1'' ''2024-03-01T00:00:00''
         = (vast_stock p, Inl OverflowError)" for fl p
    using over
    by (simp add: create_order_def check_item_def add_subtotal_def subtotal_def to_float_def
          vast_stock_def vast_order_def laptop_def stock_int_def stock_of_def
          get_by_id_def get_all_def dict_get_def dict_index_def py_lt_int_def)
  then show ?thesis by blast
qed

text \<open>
  C6, amended: for a product with \<open>int\<close> stock \<open>s\<close> and a quantity
  \<open>q \<le> s\<close> within the range of a float, creating an order (with a fresh id)
  for \<open>q\<close> units succeeds and leaves stock \<open>s - q\<close>, and its cancellation by
  its creator or by an admin succeeds and leaves stock \<open>s\<close>.
\<close>

theorem create_then_cancel_restores_stock:
  assumes stock: "stock_int (products w) pid = Some s"
    and enough: "q \<le> s"
    and fits: "\<not> float_overflow q"
    and fresh: "get_by_id (orders w) (JStr new_id) = None"
    and who: "role canceller = ''admin'' \<or> uid canceller = uid creator"
  shows "\<exists>w1 od w2.
           create_order fl w \<lparr>items = [\<lparr>product_id = pid, product_name = name,
                                      quantity = q, price = pr\<rparr>]\<rparr> creator new_id now
             = (w1, Inr od)
           \<and> stock_int (products w1) pid = Some (s - q)
           \<and> cancel_order fl w1 new_id canceller now' = (w2, Inr ())
           \<and> stock_int (products w2) pid = Some s"
proof -
  let ?order = "\<lparr>items = [\<lparr>product_id = pid, product_name = name,
                                      quantity = q, price = pr\<rparr>]\<rparr>"
  have ok: "\<forall>it \<in> set (items ?order).
              (\<exists>s. stock_int (products w) (product_id it) = Some s \<and> quantity it \<le> s)
              \<and> \<not> float_overflow (quantity it)"
    using stock enough fits by simp
  have zero: "\<forall>a. PInt 0 = PInt a \<longrightarrow> \<not> float_overflow a"
    by (simp add: float_overflow_small)
  from ok have stocks: "\<forall>it \<in> set (items ?order). stock_int (products w) (product_id it) \<noteq> None"
    by auto
  from validate_items_int [OF ok zero] obtain t where
    t: "validate_items fl (products w) (items ?order) (PInt 0) = Inr t" by blast
  from decrement_stock_items [OF stocks, of fl now] obtain db' where
    d: "decrement_stock fl (products w) (items ?order) now = (db', Inr ())" by blast
  from t d obtain w1 od where run: "create_order fl w ?order creator new_id now = (w1, Inr od)"
    by (simp add: create_order_def)
  from create_then_cancel [OF run stocks fresh who, of now'] stock run
  show ?thesis by (auto simp: qty_sum_def)
qed

theorem create_then_cancel_restores_stock_witness:
  "\<forall>fl p.
     stock_int (products (shop p)) ''p-1'' = Some 10
     \<and> (\<exists>w1 od w2.
           create_order fl (shop p) (two_laptops p) john ''o-1'' ''2024-03-01T00:00:00'' = (w1, Inr od)
           \<and> stock_int (products w1) ''p-1'' = Some 8
           \<and> cancel_order fl w1 ''o-1'' john ''2024-03-02T00:00:00'' = (w2, Inr ())
           \<and> stock_int (products w2) ''p-1'' = Some 10)"
proof -
  have "stock_int (products (shop p)) ''p-1'' = Some 10
     \<and> (\<exists>w1 od w2.
           create_order fl (shop p) (two_laptops p) john ''o-1'' ''2024-03-01T00:00:00'' = (w1, Inr od)
           \<and> stock_int (products w1) ''p-1'' = Some 8
           \<and> cancel_order fl w1 ''o-1'' john ''2024-03-02T00:00:00'' = (w2, Inr ())
           \<and> stock_int (products w2) ''p-1'' = Some 10)" for fl p
  proof -
    have stock: "stock_int (products (shop p)) ''p-1'' = Some 10"
      by (simp add: shop_def laptop_def stock_int_def stock_of_def
            get_by_id_def get_all_def dict_get_def)
    have enough: "(2::int) \<le> 10" by simp
    have fits: "\<not> float_overflow 2" by (simp add: float_overflow_small)
    have fresh: "get_by_id (orders (shop p)) (JStr ''o-1'') = None"
      by (simp add: shop_def get_by_id_def get_all_def)
    have who: "role john = ''admin'' \<or> uid john = uid john" by simp
    from create_then_cancel_restores_stock
           [OF stock enough fits fresh who, of fl "''Laptop Dell XPS 13''" p
              "''2024-03-01T00:00:00''" "''2024-03-02T00:00:00''"]
         stock
    show ?thesis by (simp add: two_laptops_def)
  qed
  then show ?thesis by blast
qed

section \<open>Updating a user\<close>

lemma update_data_email:
  assumes "email_set upd = Some (Some e)" "password_set upd \<noteq> Some None"
  shows "\<exists>u. hash_password (update_dict upd) h = Inr u
           \<and> map_of (rev (dict_set u ''updated_at'' (JStr now))) ''email'' = Some (JStr e)
           \<and> map_of (rev (dict_set u ''updated_at'' (JStr now))) ''id'' = None"
proof (cases "password_set upd")
  case None
  with assms show ?thesis
    by (cases "full_name_set upd")
       (simp_all add: update_dict_def set_field_def hash_password_def)
next
  case (Some pw)
  with assms obtain p where "password_set upd = Some (Some p)" by (cases pw) auto
  with assms show ?thesis
    by (cases "full_name_set upd")
       (simp_all add: update_dict_def set_field_def hash_password_def dict_pop_def)
qed

lemma null_password_raises:
  assumes "password_set upd = Some None"
  shows "hash_password (update_dict upd) h = Inl AttributeError"
  using assms
  by (cases "email_set upd"; cases "full_name_set upd")
     (simp_all add: update_dict_def set_field_def hash_password_def)

text \<open>
  C10, as the specification states it: every update request whose email is that of
  another stored user succeeds. A request may also set the password, and to
  \<open>null\<close>: then \<open>get_password_hash(None)\<close> raises \<open>AttributeError\<close>
  before anything is written. Here john asks for jane's email with a \<open>null\<close>
  password, whatever the hash function and the response validation are.
\<close>

theorem update_user_null_password_raises:
  "\<forall>h user_response.
     email_set null_password = Some (Some ''jane@example.com'')
     \<and> dict_get jane_record ''email'' = JStr ''jane@example.com''
     \<and> get_by_id (users members) (JStr ''u-2'') = Some jane_record
     \<and> update_user members ''u-1'' null_password john h user_response ''2024-04-01T00:00:00''
         = (members, Inl AttributeError)"
proof -
  have target: "get_by_id (users members) (JStr ''u-1'') = Some john_record"
    by (simp add: members_def john_record_def get_by_id_def get_all_def dict_get_def)
  have other: "get_by_id (users members) (JStr ''u-2'') = Some jane_record"
    by (simp add: members_def john_record_def jane_record_def get_by_id_def get_all_def
          dict_get_def)
  have "john_record \<noteq> []" by (simp add: john_record_def)
  with target have found: "truthy (get_by_id (users members) (JStr ''u-1''))" by simp
  have self: "uid john = ''u-1''" by (simp add: john_def)
  have null: "password_set null_password = Some None" by (simp add: null_password_def)
  have "update_user members ''u-1'' null_password john h user_response ''2024-04-01T00:00:00''
         = (members, Inl AttributeError)" for h and user_response :: "pydict \<Rightarrow> 'r option"
    by (simp add: update_user_def found self null_password_raises [OF null])
  moreover have "email_set null_password = Some (Some ''jane@example.com'')"
    by (simp add: null_password_def)
  moreover have "dict_get jane_record ''email'' = JStr ''jane@example.com''"
    by (simp add: jane_record_def dict_get_def)
  ultimately show ?thesis using other by blast
qed

text \<open>
  C10, amended: \<open>update_user\<close> has no uniqueness check and never raises
  \<open>ConflictException\<close>. When the principal is the user or an admin and the
  request sets the email to the email of another stored user and does not set the
  password to \<open>null\<close>, the merged record is written, and afterwards the two
  records, of different ids, are both stored with that email; the call returns the
  response when the merged record validates as a \<open>UserResponse\<close>, and raises
  \<open>ValidationError\<close>, after the write, when it does not.
\<close>

theorem update_user_email_not_unique:
  assumes target: "get_by_id (users w) (JStr a) = Some ua"
    and other: "get_by_id (users w) (JStr b) = Some ub"
    and different: "a \<noteq> b"
    and taken: "dict_get ub ''email'' = JStr e"
    and allowed: "role current_user = ''admin'' \<or> uid current_user = a"
    and request: "email_set user_update = Some (Some e)"
    and password: "password_set user_update \<noteq> Some None"
  shows "\<exists>w' r. update_user w a user_update current_user h user_response now
             = (w', case user_response r of None \<Rightarrow> Inl ValidationError
                                           | Some response \<Rightarrow> Inr response)
           \<and> get_by_id (users w') (JStr a) = Some r
           \<and> get_by_id (users w') (JStr b) = Some ub
           \<and> r \<in> set (users w') \<and> ub \<in> set (users w')
           \<and> dict_get r ''id'' = JStr a \<and> dict_get ub ''id'' = JStr b
           \<and> dict_get r ''email'' = JStr e \<and> dict_get ub ''email'' = JStr e"
proof -
  from update_data_email [OF request password, of h now] obtain u where
    u: "hash_password (update_dict user_update) h = Inr u"
    and mail: "map_of (rev (dict_set u ''updated_at'' (JStr now))) ''email'' = Some (JStr e)"
    and noid: "map_of (rev (dict_set u ''updated_at'' (JStr now))) ''id'' = None"
    by blast
  let ?u = "dict_set u ''updated_at'' (JStr now)"
  let ?r = "dict_update ua ?u"
  obtain db where upd: "update (users w) (JStr a) ?u = (db, Some ?r)"
    using target
    by (simp add: update_def get_by_id_def get_all_def update_loop_present)
  then have db: "db = fst (update (users w) (JStr a) ?u)" by simp
  have truthy: "truthy (get_by_id (users w) (JStr a))"
    using target get_by_id_JStr_nonempty [OF target] by simp
  have run: "update_user w a user_update current_user h user_response now
      = (w\<lparr>users := db\<rparr>, case user_response ?r of None \<Rightarrow> Inl ValidationError
                                                 | Some response \<Rightarrow> Inr response)"
    using allowed truthy by (auto simp: update_user_def u upd split: option.splits)
  have ra: "get_by_id db (JStr a) = Some ?r"
    unfolding db using target by (simp add: get_by_id_update_same [OF noid])
  have rb: "get_by_id db (JStr b) = Some ub"
    unfolding db using other different by (simp add: get_by_id_update_other [OF noid])
  have mem: "?r \<in> set db" "dict_get ?r ''id'' = JStr a"
    "ub \<in> set db" "dict_get ub ''id'' = JStr b"
    using get_by_field_Some_D [of db "''id''" "JStr a" ?r]
          get_by_field_Some_D [of db "''id''" "JStr b" ub] ra rb
    by (simp_all add: get_by_id_def get_all_def)
  have "dict_get ?r ''email'' = JStr e"
    by (simp only: dict_get_dict_update mail option.case)
  with run ra rb mem taken show ?thesis by simp
qed

theorem update_user_email_not_unique_witness:
  "\<forall>h user_response.
     dict_get jane_record ''email'' = JStr ''jane@example.com''
     \<and> (\<exists>w' r. update_user members ''u-1'' janes_email john h user_response
                   ''2024-04-01T00:00:00''
                = (w', case user_response r of None \<Rightarrow> Inl ValidationError
                                              | Some response \<Rightarrow> Inr response)
           \<and> get_by_id (users w') (JStr ''u-1'') = Some r
           \<and> get_by_id (users w') (JStr ''u-2'') = Some jane_record
           \<and> dict_get r ''email'' = JStr ''jane@example.com'')"
proof -
  have target: "get_by_id (users members) (JStr ''u-1'') = Some john_record"
    by (simp add: members_def john_record_def get_by_id_def get_all_def dict_get_def)
  have other: "get_by_id (users members) (JStr ''u-2'') = Some jane_record"
    by (simp add: members_def john_record_def jane_record_def get_by_id_def get_all_def
          dict_get_def)
  have different: "''u-1'' \<noteq> ''u-2''" by simp
  have taken: "dict_get jane_record ''email'' = JStr ''jane@example.com''"
    by (simp add: jane_record_def dict_get_def)
  have allowed: "role john = ''admin'' \<or> uid john = ''u-1''"
    by (simp add: john_def)
  have request: "email_set janes_email = Some (Some ''jane@example.com'')"
    and password: "password_set janes_email \<noteq> Some None"
    by (simp_all add: janes_email_def)
  have "\<exists>w' r. update_user members ''u-1'' janes_email john h user_response
                   ''2024-04-01T00:00:00''
                = (w', case user_response r of None \<Rightarrow> Inl ValidationError
                                              | Some response \<Rightarrow> Inr response)
           \<and> get_by_id (users w') (JStr ''u-1'') = Some r
           \<and> get_by_id (users w') (JStr ''u-2'') = Some jane_record
           \<and> dict_get r ''email'' = JStr ''jane@example.com''"
    for h and user_response :: "pydict \<Rightarrow> 'r option"
    using update_user_email_not_unique
            [OF target other different taken allowed request password,
             of h user_response "''2024-04-01T00:00:00''"]
    by blast
  with taken show ?thesis by blast
qed

section \<open>Calls in one event loop and calls one after another\<close>

lemma resume_Done_funpow:
  "((\<lambda>(w, t). resume fl c w t) ^^ n) (w, Done r) = (w, Done r)"
  by (induction n) simp_all

lemma first_loop_segments:
  "((\<lambda>(w, t). resume fl c w t) ^^ length rest) (w, first_loop (call_order c) rest total_amount) =
     (case validate_items fl (products w) rest total_amount of
        Inl e \<Rightarrow> (w, Done (Inl e))
      | Inr total' \<Rightarrow> (w, second_loop (items (call_order c)) total'))"
proof (induction rest arbitrary: total_amount)
  case Nil
  then show ?case by simp
next
  case (Cons item rest)
  show ?case
  proof (cases "check_item fl (products w) item")
    case (Inl e)
    then show ?thesis
      by (simp add: funpow_swap1 resume_Done_funpow)
  next
    case (Inr u)
    show ?thesis
    proof (cases "add_subtotal fl total_amount item")
      case (Inl e)
      with Inr show ?thesis
        by (simp add: funpow_swap1 resume_Done_funpow)
    next
      case (Inr total')
      with \<open>check_item fl (products w) item = Inr u\<close> show ?thesis
        using Cons.IH by (simp add: funpow_swap1)
    qed
  qed
qed

lemma second_loop_segments:
  "((\<lambda>(w, t). resume fl c w t) ^^ (2 * length rest)) (w, second_loop rest total_amount) =
     (case decrement_stock fl (products w) rest (call_time c) of
        (db, Inl e) \<Rightarrow> (w\<lparr>products := db\<rparr>, Done (Inl e))
      | (db, Inr u) \<Rightarrow> (w\<lparr>products := db\<rparr>, Inserting total_amount))"
proof (induction rest arbitrary: w)
  case Nil
  then show ?case by simp
next
  case (Cons item rest)
  show ?case
  proof (cases "reduced_stock fl (products w) item")
    case (Inl e)
    then show ?thesis
      by (simp add: funpow_swap1 resume_Done_funpow)
  next
    case (Inr v)
    then show ?thesis
      using Cons.IH [of "w\<lparr>products := write_stock (products w) item v (call_time c)\<rparr>"]
      by (simp add: funpow_swap1 split: prod.splits sum.splits)
  qed
qed

lemma lone_call_segments:
  "((\<lambda>(w, t). resume fl c w t) ^^ (3 * length (items (call_order c)) + 2)) (w, Start) =
     (case create_order fl w (call_order c) (call_user c) (call_id c) (call_time c) of
        (w', r) \<Rightarrow> (w', Done r))"
proof -
  let ?f = "\<lambda>(w, t). resume fl c w t"
  let ?n = "length (items (call_order c))"
  have count: "3 * ?n + 2 = Suc (2 * ?n + (?n + 1))" by simp
  have parts: "(?f ^^ (3 * ?n + 2)) x = ?f ((?f ^^ (2 * ?n)) ((?f ^^ (?n + 1)) x))" for x
    by (simp only: count funpow.simps funpow_add o_apply)
  have start: "(?f ^^ (?n + 1)) (w, Start) =
     (case validate_items fl (products w) (items (call_order c)) (PInt 0) of
        Inl e \<Rightarrow> (w, Done (Inl e))
      | Inr total' \<Rightarrow> (w, second_loop (items (call_order c)) total'))"
    using first_loop_segments [where c = c and rest = "items (call_order c)" and w = w
                                 and total_amount = "PInt 0"]
    by (simp add: funpow_swap1)
  show ?thesis
  proof (cases "validate_items fl (products w) (items (call_order c)) (PInt 0)")
    case (Inl e)
    have "(?f ^^ (?n + 1)) (w, Start) = (w, Done (Inl e))"
      by (simp only: start Inl sum.case)
    then have "(?f ^^ (3 * ?n + 2)) (w, Start) = (w, Done (Inl e))"
      by (simp only: parts resume_Done_funpow) simp
    then show ?thesis by (simp only: create_order_def Inl sum.case prod.case)
  next
    case (Inr total')
    have one: "(?f ^^ (?n + 1)) (w, Start) = (w, second_loop (items (call_order c)) total')"
      by (simp only: start Inr sum.case)
    show ?thesis
    proof (cases "decrement_stock fl (products w) (items (call_order c)) (call_time c)")
      case (Pair db r)
      show ?thesis
      proof (cases r)
        case (Inl e)
        have "(?f ^^ (2 * ?n)) (w, second_loop (items (call_order c)) total')
                = (w\<lparr>products := db\<rparr>, Done (Inl e))"
          by (simp only: second_loop_segments Pair Inl prod.case sum.case)
        then have "(?f ^^ (3 * ?n + 2)) (w, Start) = (w\<lparr>products := db\<rparr>, Done (Inl e))"
          by (simp only: parts one) simp
        then show ?thesis
          by (simp only: create_order_def Inr Pair Inl sum.case prod.case)
      next
        case (Inr u)
        have "(?f ^^ (2 * ?n)) (w, second_loop (items (call_order c)) total')
                = (w\<lparr>products := db\<rparr>, Inserting total')"
          by (simp only: second_loop_segments Pair Inr prod.case sum.case)
        then have "(?f ^^ (3 * ?n + 2)) (w, Start) =
            (w\<lparr>products := db,
               orders := fst (create (orders w)
                 (order_data (call_order c) (call_user c) total' (call_id c) (call_time c)))\<rparr>,
             Done (Inr (order_data (call_order c) (call_user c) total' (call_id c) (call_time c))))"
          by (simp only: parts one) simp
        then show ?thesis
          by (simp only: create_order_def \<open>validate_items fl (products w) (items (call_order c)) (PInt 0) = Inr total'\<close>
                Pair Inr sum.case prod.case)
      qed
    qed
  qed
qed

lemma run_schedule_lone:
  "run_schedule fl (replicate n 0) (w, [(c, t)]) =
     (case ((\<lambda>(w, t). resume fl c w t) ^^ n) (w, t) of (w', t') \<Rightarrow> (w', [(c, t')]))"
proof (induction n arbitrary: w t)
  case 0
  then show ?case by simp
next
  case (Suc n)
  show ?case
    by (cases "resume fl c w t") (simp add: Suc.IH funpow_swap1)
qed

text \<open>
  A call that is resumed segment after segment with no other call in between does
  what the handler does as a function of the store: after its \<open>3n + 2\<close> segments
  (for \<open>n\<close> items) the collections and the outcome are those of
  \<open>create_order\<close>.
\<close>

lemma lone_call_is_create_order:
  "run_schedule fl (replicate (3 * length (items (call_order c)) + 2) 0) (w, [(c, Start)]) =
     (case create_order fl w (call_order c) (call_user c) (call_id c) (call_time c) of
        (w', r) \<Rightarrow> (w', [(c, Done r)]))"
  unfolding run_schedule_lone lone_call_segments
  by (simp split: prod.splits)

text \<open>
  C1, as the specification states it: of \<open>N\<close> concurrent calls that each ask for
  one unit of a product with \<open>K\<close> units, exactly \<open>min N K\<close> succeed and the
  stock ends at \<open>max 0 (K - N)\<close>; with stock 5 and ten calls, five succeed and the
  stock ends at 0. The code has no lock around the check and the write. Here ten calls
  for one laptop each start on a stock of 5 and are resumed in turn, as the event loop
  resumes tasks that were started together: every call reads the stock 5 in its check
  and again before its write, every call writes 4, and every call stores its order.
  All ten succeed and the stock ends at 4, whatever the float arithmetic and the
  price are.
\<close>

theorem interleaved_creates_all_succeed:
  "\<forall>fl p.
     stock_int (products (five_left p)) ''p-1'' = Some 5
     \<and> length (ten_tasks p) = 10
     \<and> length (filter succeeded
           (map snd (snd (run_schedule fl round_robin (five_left p, ten_tasks p))))) = 10
     \<and> stock_int (products (fst (run_schedule fl round_robin (five_left p, ten_tasks p))))
           ''p-1'' = Some 4
     \<and> length (orders (fst (run_schedule fl round_robin (five_left p, ten_tasks p)))) = 10"
proof -
  have "stock_int (products (five_left p)) ''p-1'' = Some 5
     \<and> length (ten_tasks p) = 10
     \<and> length (filter succeeded
           (map snd (snd (run_schedule fl round_robin (five_left p, ten_tasks p))))) = 10
     \<and> stock_int (products (fst (run_schedule fl round_robin (five_left p, ten_tasks p))))
           ''p-1'' = Some 4
     \<and> length (orders (fst (run_schedule fl round_robin (five_left p, ten_tasks p)))) = 10"
    for fl p
    by code_simp
  then show ?thesis by blast
qed

lemma name_of_update:
  "name_of (fst (update db (JStr pid') [(''stock'', v), (''updated_at'', JStr now)])) pid
     = name_of db pid"
proof (cases "pid = pid'")
  case True
  then show ?thesis
    by (cases "get_by_id db (JStr pid')")
       (simp_all add: name_of_def get_by_id_update_same map_of_dict_set)
next
  case False
  then show ?thesis by (simp add: name_of_def get_by_id_update_other)
qed

lemma create_one_unit_succeeds:
  assumes stock: "stock_int (products w) pid = Some K" and enough: "1 \<le> K"
    and one: "items order = [\<lparr>product_id = pid, product_name = name, quantity = 1, price = pr\<rparr>]"
  shows "\<exists>w1 od. create_order fl w order u i t = (w1, Inr od)
           \<and> stock_int (products w1) pid = Some (K - 1)
           \<and> name_of (products w1) pid = name_of (products w) pid"
proof -
  let ?it = "\<lparr>product_id = pid, product_name = name, quantity = 1, price = pr\<rparr>"
  have v: "stock_of (products w) pid = Some (JInt K)"
    using stock by (auto simp: stock_int_def split: option.splits json.splits)
  have present: "get_by_id (products w) (JStr pid) \<noteq> None"
    using stock stock_int_absent by fastforce
  have fits: "\<not> float_overflow 0" "\<not> float_overflow 1"
    by (simp_all add: float_overflow_small)
  have sub: "add_subtotal fl (PInt 0) ?it
      = Inr (PFloat (float_add fl (float_of_int fl 0) (float_mul fl (float_of_int fl 1) pr)))"
    by (simp add: add_subtotal_Inr fits)
  have val: "validate_items fl (products w) (items order) (PInt 0)
      = Inr (PFloat (float_add fl (float_of_int fl 0) (float_mul fl (float_of_int fl 1) pr)))"
    using v enough by (simp add: one validate_items_step sub del: validate_items.simps(2))
  have dec: "decrement_stock fl (products w) (items order) t =
       (fst (update (products w) (JStr pid) [(''stock'', JInt (K - 1)), (''updated_at'', JStr t)]),
        Inr ())"
    using decrement_stock_step [of "products w" ?it "JInt K" "PInt K" fl "PInt (K - 1)" "[]" t] v
    by (simp add: one)
  show ?thesis
    using present by (simp add: create_order_def val dec stock_int_update name_of_update)
qed

lemma create_one_unit_fails:
  assumes stock: "stock_int (products w) pid = Some K" and short: "K < 1"
    and named: "name_of (products w) pid \<noteq> None"
    and one: "items order = [\<lparr>product_id = pid, product_name = name, quantity = 1, price = pr\<rparr>]"
  shows "create_order fl w order u i t = (w, Inl (BadRequestException Insufficient_stock))"
proof -
  have v: "stock_of (products w) pid = Some (JInt K)"
    using stock by (auto simp: stock_int_def split: option.splits json.splits)
  have "validate_items fl (products w) (items order) (PInt 0)
          = Inl (BadRequestException Insufficient_stock)"
    using v short named
    by (auto simp: one validate_items_step name_of_def simp del: validate_items.simps(2)
        split: option.splits)
  then show ?thesis by (simp add: create_order_def)
qed

text \<open>
  C1, amended: when \<open>N\<close> calls that each ask for one unit of a product with
  \<open>K\<close> units (an \<open>int\<close> stock \<open>K \<ge> 0\<close>, and a name) run one after
  another, exactly \<open>min N K\<close> of them succeed, namely the first ones, the others
  raise \<open>BadRequestException\<close> for insufficient stock, and the stock ends at
  \<open>max 0 (K - N)\<close>.
\<close>

theorem create_orders_one_unit_each:
  assumes stock: "stock_int (products w) pid = Some K" and nonneg: "0 \<le> K"
    and named: "name_of (products w) pid \<noteq> None"
    and calls: "\<forall>c \<in> set calls. \<exists>name pr. items (call_order c)
                   = [\<lparr>product_id = pid, product_name = name, quantity = 1, price = pr\<rparr>]"
  shows "\<exists>w' rs. create_orders fl w calls = (w', rs)
           \<and> length rs = length calls
           \<and> length (filter (\<lambda>r. \<not> isl r) rs) = nat (min (int (length calls)) K)
           \<and> (\<forall>i < length rs. if int i < K then \<not> isl (rs ! i)
                               else rs ! i = Inl (BadRequestException Insufficient_stock))
           \<and> stock_int (products w') pid = Some (max 0 (K - int (length calls)))"
  using assms
proof (induction calls arbitrary: w K)
  case Nil
  then show ?case by simp
next
  case (Cons c cs)
  from Cons.prems(4) obtain name pr where
    one: "items (call_order c) = [\<lparr>product_id = pid, product_name = name, quantity = 1, price = pr\<rparr>]"
    by auto
  from Cons.prems(4) have rest: "\<forall>c \<in> set cs. \<exists>name pr. items (call_order c)
                   = [\<lparr>product_id = pid, product_name = name, quantity = 1, price = pr\<rparr>]"
    by simp
  show ?case
  proof (cases "1 \<le> K")
    case True
    from create_one_unit_succeeds [OF Cons.prems(1) True one,
           where fl = fl and u = "call_user c" and i = "call_id c" and t = "call_time c"]
    obtain w1 od where
      run: "create_order fl w (call_order c) (call_user c) (call_id c) (call_time c) = (w1, Inr od)"
      and s1: "stock_int (products w1) pid = Some (K - 1)"
      and n1: "name_of (products w1) pid = name_of (products w) pid"
      by blast
    have named1: "name_of (products w1) pid \<noteq> None" using n1 Cons.prems(3) by simp
    have nonneg1: "0 \<le> K - 1" using True by simp
    from Cons.IH [OF s1 nonneg1 named1 rest] obtain w' rs where
      runs: "create_orders fl w1 cs = (w', rs)"
      and len: "length rs = length cs"
      and cnt: "length (filter (\<lambda>r. \<not> isl r) rs) = nat (min (int (length cs)) (K - 1))"
      and each: "\<forall>i < length rs. if int i < K - 1 then \<not> isl (rs ! i)
                               else rs ! i = Inl (BadRequestException Insufficient_stock)"
      and fin: "stock_int (products w') pid = Some (max 0 (K - 1 - int (length cs)))"
      by blast
    have all: "create_orders fl w (c # cs) = (w', Inr od # rs)"
      by (simp add: run runs)
    have cnt': "length (filter (\<lambda>r. \<not> isl r) (Inr od # rs)) = nat (min (int (length (c # cs))) K)"
      using cnt True by simp
    have each': "\<forall>i < length (Inr od # rs). if int i < K then \<not> isl ((Inr od # rs) ! i)
                               else (Inr od # rs) ! i = Inl (BadRequestException Insufficient_stock)"
    proof (intro allI impI)
      fix i assume "i < length (Inr od # rs)"
      then show "if int i < K then \<not> isl ((Inr od # rs) ! i)
                               else (Inr od # rs) ! i = Inl (BadRequestException Insufficient_stock)"
        using each True by (cases i) (auto split: if_splits)
    qed
    have fin': "stock_int (products w') pid = Some (max 0 (K - int (length (c # cs))))"
      using fin by (simp add: algebra_simps)
    from all len cnt' each' fin' show ?thesis by simp
  next
    case False
    with Cons.prems(2) have K0: "K = 0" by simp
    have short: "K < 1" using K0 by simp
    from create_one_unit_fails [OF Cons.prems(1) short Cons.prems(3) one, where fl = fl]
    have run: "create_order fl w (call_order c) (call_user c) (call_id c) (call_time c)
                 = (w, Inl (BadRequestException Insufficient_stock))" .
    from Cons.IH [OF Cons.prems(1) Cons.prems(2) Cons.prems(3) rest] obtain w' rs where
      runs: "create_orders fl w cs = (w', rs)"
      and len: "length rs = length cs"
      and cnt: "length (filter (\<lambda>r. \<not> isl r) rs) = nat (min (int (length cs)) K)"
      and each: "\<forall>i < length rs. if int i < K then \<not> isl (rs ! i)
                               else rs ! i = Inl (BadRequestException Insufficient_stock)"
      and fin: "stock_int (products w') pid = Some (max 0 (K - int (length cs)))"
      by blast
    have all: "create_orders fl w (c # cs)
                 = (w', Inl (BadRequestException Insufficient_stock) # rs)"
      by (simp add: run runs)
    have each': "\<forall>i < length (Inl (BadRequestException Insufficient_stock) # rs).
        if int i < K then \<not> isl ((Inl (BadRequestException Insufficient_stock) # rs) ! i)
        else (Inl (BadRequestException Insufficient_stock) # rs) ! i
               = Inl (BadRequestException Insufficient_stock)"
    proof (intro allI impI)
      fix i assume "i < length (Inl (BadRequestException Insufficient_stock) # rs)"
      then show "if int i < K
        then \<not> isl ((Inl (BadRequestException Insufficient_stock) # rs) ! i)
        else (Inl (BadRequestException Insufficient_stock) # rs) ! i
               = Inl (BadRequestException Insufficient_stock)"
        using each K0 by (cases i) (auto split: if_splits)
    qed
    from all len cnt each' fin K0 show ?thesis by simp
  qed
qed

theorem create_orders_one_unit_each_witness:
  "\<forall>fl p.
     stock_int (products (five_left p)) ''p-1'' = Some 5
     \<and> length (ten_buyers p) = 10
     \<and> (\<exists>w' rs. create_orders fl (five_left p) (ten_buyers p) = (w', rs)
           \<and> length rs = 10
           \<and> length (filter (\<lambda>r. \<not> isl r) rs) = 5
           \<and> stock_int (products w') ''p-1'' = Some 0)"
proof -
  have "stock_int (products (five_left p)) ''p-1'' = Some 5
     \<and> length (ten_buyers p) = 10
     \<and> (\<exists>w' rs. create_orders fl (five_left p) (ten_buyers p) = (w', rs)
           \<and> length rs = 10
           \<and> length (filter (\<lambda>r. \<not> isl r) rs) = 5
           \<and> stock_int (products w') ''p-1'' = Some 0)" for fl p
  proof -
    have stock: "stock_int (products (five_left p)) ''p-1'' = Some 5"
      by (simp add: five_left_def laptop_def stock_int_def stock_of_def get_by_id_def
            get_all_def dict_get_def)
    have nonneg: "(0::int) \<le> 5" by simp
    have named: "name_of (products (five_left p)) ''p-1'' \<noteq> None"
      by (simp add: five_left_def laptop_def name_of_def get_by_id_def get_all_def
            dict_get_def)
    have calls: "\<forall>c \<in> set (ten_buyers p). \<exists>name pr. items (call_order c)
                   = [\<lparr>product_id = ''p-1'', product_name = name, quantity = 1, price = pr\<rparr>]"
      by (auto simp: ten_buyers_def buyer_def one_laptop_def)
    have ten: "length (ten_buyers p) = 10" by (simp add: ten_buyers_def)
    from create_orders_one_unit_each [OF stock nonneg named calls, of fl] stock ten
    show ?thesis by auto
  qed
  then show ?thesis by blast
qed

end
